theory Spec2Isabelle
  imports Main "HOL-Library.AList" "HOL-Library.Multiset"
begin

section \<open>Shared data: thrown values, header maps, HTTP responses\<close>

text \<open>
  \<^verbatim>\<open>class HttpQueryError extends Error\<close> (runHttpQuery.ts): a status code, the message,
  the \<^verbatim>\<open>isGraphQLError\<close> flag and optional headers (\<open>None\<close> is \<^verbatim>\<open>undefined\<close>).
\<close>

record HttpQueryError =
  errStatusCode :: nat
  message :: string
  isGraphQLError :: bool
  errHeaders :: "(string \<times> string) list option"

text \<open>
  What a JavaScript \<^verbatim>\<open>throw\<close> (or a rejected promise) carries in this code: an
  \<^verbatim>\<open>HttpQueryError\<close>, or any other \<^verbatim>\<open>Error\<close> with its message.
\<close>

datatype thrown = HttpQueryErr HttpQueryError | OtherError string

text \<open>
  A JavaScript \<^verbatim>\<open>Map<string, string>\<close> is an insertion-ordered table with unique keys:
  an association list. \<^verbatim>\<open>Map.prototype.set\<close> overwrites the value of a key in place and
  appends a new key at the end, which is \<^const>\<open>AList.update\<close>.
\<close>

type_synonym headerMap = "(string \<times> string) list"

definition mapFromEntries :: "(string \<times> string) list \<Rightarrow> headerMap" where
  "mapFromEntries es = fold (\<lambda>(k, v). AList.update k v) es []"

text \<open>
  \<^verbatim>\<open>HTTPGraphQLResponse\<close>: \<^verbatim>\<open>statusCode\<close> is optional (\<open>None\<close> is \<^verbatim>\<open>undefined\<close>),
  \<^verbatim>\<open>completeBody\<close> is a string or \<^verbatim>\<open>null\<close> (\<open>None\<close>); \<^verbatim>\<open>bodyChunks\<close> is \<^verbatim>\<open>null\<close>
  wherever this code builds a response and is left out.
\<close>

record HTTPGraphQLResponse =
  statusCode :: "nat option"
  headers :: headerMap
  completeBody :: "string option"

text \<open>JavaScript truthiness of an optional number: defined and not zero.\<close>

definition truthyNum :: "nat option \<Rightarrow> bool" where
  "truthyNum s = (case s of None \<Rightarrow> False | Some n \<Rightarrow> n \<noteq> 0)"

text \<open>\<^verbatim>\<open>Array.prototype.join\<close> on an array of strings.\<close>

fun join :: "string \<Rightarrow> string list \<Rightarrow> string" where
  "join sep [] = []"
| "join sep [x] = x"
| "join sep (x # y # ys) = x @ sep @ join sep (y # ys)"

text \<open>
  JavaScript values as far as this code looks at them: request bodies, search parameters
  and the JSON content of a response. Numbers are the integers, a \<^verbatim>\<open>Buffer\<close> is its
  bytes, and an object is the list of its own enumerable properties in insertion order (a
  well-formed object has distinct keys; a lookup takes the first entry).
\<close>

datatype jsval =
    JUndefined | JNull | JBool bool | JNum int | JStr string
  | JBuffer "nat list" | JArr "jsval list" | JObj "(string \<times> jsval) list"

text \<open>
  \<^verbatim>\<open>HTTPGraphQLRequest\<close>. The type of \<^verbatim>\<open>body\<close> is a parameter: \<^verbatim>\<open>any\<close> (a \<^typ>\<open>jsval\<close>) for
  a single request, \<^verbatim>\<open>any[]\<close> (a \<^typ>\<open>jsval list\<close>) for the batch request of
  \<^verbatim>\<open>runBatchHttpQuery\<close>.
\<close>

record 'b HTTPGraphQLRequest =
  reqMethod :: string
  reqHeaders :: headerMap
  pathname :: string
  searchParams :: jsval
  body :: 'b

section \<open>httpBatching.ts: runBatchHttpQuery\<close>

text \<open>
  \<^verbatim>\<open>combinedResponse.headers.set(key, value)\<close> on the coordinator's \<^verbatim>\<open>HeaderMap\<close>. The class
  is imported from runHttpQuery.ts but not declared in the sources at hand, so the key
  normalisation it applies is the parameter \<open>norm\<close> (the identity for a plain \<^verbatim>\<open>Map\<close>,
  lower-casing for a case-insensitive table); the value of an existing key is overridden,
  as the comment at the call says.
\<close>

definition headerSet :: "(string \<Rightarrow> string) \<Rightarrow> string \<Rightarrow> string \<Rightarrow> headerMap \<Rightarrow> headerMap" where
  "headerSet norm key val hs = AList.update (norm key) val hs"

text \<open>The loop \<^verbatim>\<open>for (const [key, value] of response.headers) combinedResponse.headers.set(key, value)\<close>.\<close>

definition copyHeaders :: "(string \<Rightarrow> string) \<Rightarrow> headerMap \<Rightarrow> headerMap \<Rightarrow> headerMap" where
  "copyHeaders norm responseHeaders combinedHeaders =
     fold (\<lambda>(key, val). headerSet norm key val) responseHeaders combinedHeaders"

text \<open>
  The part of the \<^verbatim>\<open>async (body) => ...\<close> callback that runs once its
  \<^verbatim>\<open>await runHttpQuery(...)\<close> has settled with \<open>outcome\<close>: it rethrows a rejection, throws
  on a \<^verbatim>\<open>null\<close> body, and otherwise copies the headers and a truthy status code into the
  shared \<^verbatim>\<open>combinedResponse\<close> and returns the body.
\<close>

definition afterAwait ::
  "(string \<Rightarrow> string) \<Rightarrow> thrown + HTTPGraphQLResponse \<Rightarrow> HTTPGraphQLResponse
     \<Rightarrow> (thrown + string) \<times> HTTPGraphQLResponse" where
  "afterAwait norm outcome combinedResponse =
     (case outcome of
        Inl e \<Rightarrow> (Inl e, combinedResponse)
      | Inr response \<Rightarrow>
          (case completeBody response of
             None \<Rightarrow> (Inl (OtherError ''Incremental delivery not implemented''), combinedResponse)
           | Some b \<Rightarrow>
               (Inr b,
                combinedResponse
                  \<lparr> headers :=
                      copyHeaders norm (headers response) (headers combinedResponse),
                    statusCode :=
                      (if truthyNum (statusCode response) then statusCode response
                       else statusCode combinedResponse) \<rparr>)))"

text \<open>
  The state of the fan-out while the \<open>N\<close> promises settle: the shared
  \<^verbatim>\<open>combinedResponse\<close>, one slot per input position for the value each callback
  resolved with (\<open>None\<close> while pending or rejected), and the first rejection, which is
  what \<^verbatim>\<open>Promise.all\<close> rejects with.
\<close>

record batchState =
  combined :: HTTPGraphQLResponse
  responseBodies :: "string option list"
  rejection :: "thrown option"
  settled :: "nat list"

definition initialState :: "nat \<Rightarrow> batchState" where
  "initialState n =
     \<lparr> combined = \<lparr> statusCode = None, headers = [], completeBody = Some [] \<rparr>,
       responseBodies = replicate n None,
       rejection = None,
       settled = [] \<rparr>"

text \<open>
  Operation \<open>i\<close> completes with \<open>outcome\<close>: its callback resumes and mutates the shared
  state. An index outside the batch, or one that has already settled, is no event.
\<close>

definition complete ::
  "(string \<Rightarrow> string) \<Rightarrow> nat \<Rightarrow> thrown + HTTPGraphQLResponse \<Rightarrow> batchState \<Rightarrow> batchState" where
  "complete norm i outcome st =
     (if i < length (responseBodies st) \<and> i \<notin> set (settled st) then
        (case afterAwait norm outcome (combined st) of
           (Inr b, c) \<Rightarrow>
             st \<lparr> combined := c, responseBodies := (responseBodies st)[i := Some b],
                  settled := i # settled st \<rparr>
         | (Inl e, c) \<Rightarrow>
             st \<lparr> combined := c,
                  rejection := (case rejection st of None \<Rightarrow> Some e | Some e0 \<Rightarrow> Some e0),
                  settled := i # settled st \<rparr>)
      else st)"

text \<open>
  \<^verbatim>\<open>runBatchHttpQuery\<close>. The \<open>N\<close> calls of \<^verbatim>\<open>runHttpQuery\<close> run concurrently; \<open>run i r\<close>
  is what the \<open>i\<close>-th call, on the single request \<open>r\<close>, settles with, and \<open>order\<close> lists
  the positions in the order in which the calls complete. The result is \<open>None\<close> when
  \<^verbatim>\<open>Promise.all\<close> never settles (an operation never completes and none was rejected),
  \<open>Some (Inl e)\<close> when the function throws \<open>e\<close>, and \<open>Some (Inr r)\<close> when it returns \<open>r\<close>.
\<close>

definition singleRequest :: "'b list HTTPGraphQLRequest \<Rightarrow> 'b \<Rightarrow> 'b HTTPGraphQLRequest" where
  "singleRequest batchRequest b =
     \<lparr> reqMethod = reqMethod batchRequest, reqHeaders = reqHeaders batchRequest,
       pathname = pathname batchRequest, searchParams = searchParams batchRequest, body = b \<rparr>"

definition outcome ::
  "(nat \<Rightarrow> 'b HTTPGraphQLRequest \<Rightarrow> thrown + HTTPGraphQLResponse) \<Rightarrow>
     'b list HTTPGraphQLRequest \<Rightarrow> nat \<Rightarrow> thrown + HTTPGraphQLResponse" where
  "outcome run batchRequest i = run i (singleRequest batchRequest (body batchRequest ! i))"

definition runBatchHttpQuery ::
  "(string \<Rightarrow> string) \<Rightarrow> (nat \<Rightarrow> 'b HTTPGraphQLRequest \<Rightarrow> thrown + HTTPGraphQLResponse) \<Rightarrow>
     'b list HTTPGraphQLRequest \<Rightarrow> nat list \<Rightarrow> (thrown + HTTPGraphQLResponse) option" where
  "runBatchHttpQuery norm run batchRequest order =
     (let st = fold (\<lambda>i. complete norm i (outcome run batchRequest i)) order
                 (initialState (length (body batchRequest)))
      in case rejection st of
           Some e \<Rightarrow> Some (Inl e)
         | None \<Rightarrow>
             (if list_all (\<lambda>s. s \<noteq> None) (responseBodies st) then
                Some (Inr ((combined st)
                  \<lparr> completeBody := Some (''['' @ join '','' (map the (responseBodies st)) @ '']'') \<rparr>))
              else None))"

text \<open>
  Which value survives when several operations write the same cell: \<open>offer i\<close> is what
  operation \<open>i\<close> writes (\<open>None\<close>: it leaves the cell alone), and the writes happen in
  the order of the list, so the last position of the list that offers a value wins.
\<close>

fun lastWriter :: "(nat \<Rightarrow> 'a option) \<Rightarrow> nat list \<Rightarrow> 'a option" where
  "lastWriter offer [] = None"
| "lastWriter offer (i # is) =
     (case lastWriter offer is of Some v \<Rightarrow> Some v | None \<Rightarrow> offer i)"

text \<open>What a response offers for the header cell \<open>k\<close> of the combined table, and for the status code.\<close>

definition headerOffer :: "(string \<Rightarrow> string) \<Rightarrow> HTTPGraphQLResponse \<Rightarrow> string \<Rightarrow> string option" where
  "headerOffer norm response k = map_of (rev (map (\<lambda>(key, val). (norm key, val)) (headers response))) k"

definition statusOffer :: "HTTPGraphQLResponse \<Rightarrow> nat option" where
  "statusOffer response = (if truthyNum (statusCode response) then statusCode response else None)"

text \<open>
  A batch of two operations for the examples below: the first answers with status 201 and
  header \<open>x: a\<close>, the second with status 202 and header \<open>x: b\<close>; \<open>quietRun\<close> is the
  same pair with no status code set, the normal success case.
\<close>

definition twoBodies :: "jsval list HTTPGraphQLRequest" where
  "twoBodies =
     \<lparr> reqMethod = ''POST'', reqHeaders = [], pathname = ''/'', searchParams = JObj [],
       body = [JObj [(''query'', JStr ''{a}'')], JObj [(''query'', JStr ''{b}'')]] \<rparr>"

definition loudResponse :: "nat \<Rightarrow> HTTPGraphQLResponse" where
  "loudResponse i =
     (if i = 0 then \<lparr> statusCode = Some 201, headers = [(''x'', ''a'')], completeBody = Some ''A'' \<rparr>
      else \<lparr> statusCode = Some 202, headers = [(''x'', ''b'')], completeBody = Some ''B'' \<rparr>)"

definition loudRun :: "nat \<Rightarrow> jsval HTTPGraphQLRequest \<Rightarrow> thrown + HTTPGraphQLResponse" where
  "loudRun i r = Inr (loudResponse i)"

definition quietResponse :: "nat \<Rightarrow> HTTPGraphQLResponse" where
  "quietResponse i = (loudResponse i) \<lparr> statusCode := None \<rparr>"

definition quietRun :: "nat \<Rightarrow> jsval HTTPGraphQLRequest \<Rightarrow> thrown + HTTPGraphQLResponse" where
  "quietRun i r = Inr (quietResponse i)"

section \<open>runHttpQuery.ts: JavaScript values and JSON\<close>

text \<open>
  JavaScript truthiness, \<^verbatim>\<open>typeof o === 'object'\<close>, \<^verbatim>\<open>typeof o === 'string'\<close>,
  \<^verbatim>\<open>Buffer.isBuffer\<close> and \<^verbatim>\<open>Array.isArray\<close>.
\<close>

fun truthy :: "jsval \<Rightarrow> bool" where
  "truthy JUndefined = False"
| "truthy JNull = False"
| "truthy (JBool b) = b"
| "truthy (JNum n) = (n \<noteq> 0)"
| "truthy (JStr s) = (s \<noteq> [])"
| "truthy (JBuffer bs) = True"
| "truthy (JArr xs) = True"
| "truthy (JObj ps) = True"

fun typeofObject :: "jsval \<Rightarrow> bool" where
  "typeofObject JNull = True"
| "typeofObject (JBuffer bs) = True"
| "typeofObject (JArr xs) = True"
| "typeofObject (JObj ps) = True"
| "typeofObject v = False"

fun typeofString :: "jsval \<Rightarrow> bool" where
  "typeofString (JStr s) = True"
| "typeofString v = False"

fun isBuffer :: "jsval \<Rightarrow> bool" where
  "isBuffer (JBuffer bs) = True"
| "isBuffer v = False"

fun isArray :: "jsval \<Rightarrow> bool" where
  "isArray (JArr xs) = True"
| "isArray v = False"

text \<open>
  \<^verbatim>\<open>o[fieldName]\<close> for the field names this code reads (\<^verbatim>\<open>query\<close>, \<^verbatim>\<open>operationName\<close>,
  \<^verbatim>\<open>variables\<close>, \<^verbatim>\<open>extensions\<close>, \<^verbatim>\<open>kind\<close>): the property of an object,
  \<^verbatim>\<open>undefined\<close> when it has none, and \<^verbatim>\<open>undefined\<close> on every other truthy value, none
  of which carries such a property.
\<close>

fun getField :: "jsval \<Rightarrow> string \<Rightarrow> jsval" where
  "getField (JObj ps) fieldName = (case map_of ps fieldName of None \<Rightarrow> JUndefined | Some v \<Rightarrow> v)"
| "getField v fieldName = JUndefined"

text \<open>
  \<^verbatim>\<open>JSON.stringify\<close>. The double quote, the backslash and the line feed are written by
  their codes. A string is quoted with the escapes of ECMAScript's \<^verbatim>\<open>QuoteJSONString\<close>;
  characters are bytes here, so a character beyond ASCII is its UTF-8 bytes, passed on
  as they are.
\<close>

definition dquote :: char where
  "dquote = CHR 0x22"

definition backslash :: char where
  "backslash = CHR 0x5C"

definition newline :: char where
  "newline = CHR 0x0A"

definition hexDigit :: "nat \<Rightarrow> char" where
  "hexDigit d = ''0123456789abcdef'' ! (d mod 16)"

definition escapeChar :: "char \<Rightarrow> string" where
  "escapeChar c =
     (if c = dquote then [backslash, dquote]
      else if c = backslash then [backslash, backslash]
      else if c = CHR 0x08 then [backslash, CHR ''b'']
      else if c = CHR 0x0C then [backslash, CHR ''f'']
      else if c = CHR 0x0A then [backslash, CHR ''n'']
      else if c = CHR 0x0D then [backslash, CHR ''r'']
      else if c = CHR 0x09 then [backslash, CHR ''t'']
      else if (of_char c :: nat) < 32 then
        [backslash, CHR ''u'', CHR ''0'', CHR ''0'', hexDigit (of_char c div 16), hexDigit (of_char c)]
      else [c])"

definition quoteJSONString :: "string \<Rightarrow> string" where
  "quoteJSONString s = [dquote] @ concat (map escapeChar s) @ [dquote]"

fun showNat :: "nat \<Rightarrow> string" where
  "showNat n = (if n < 10 then [''0123456789'' ! n] else showNat (n div 10) @ [''0123456789'' ! (n mod 10)])"

declare showNat.simps [simp del]

definition showInt :: "int \<Rightarrow> string" where
  "showInt n = (if n < 0 then ''-'' @ showNat (nat (- n)) else showNat (nat n))"

text \<open>
  \<^verbatim>\<open>Object.keys\<close>: the keys of an object; the indices of an array, a string or a
  \<^verbatim>\<open>Buffer\<close>; none for the other primitives.
\<close>

fun objectKeys :: "jsval \<Rightarrow> string list" where
  "objectKeys (JObj ps) = map fst ps"
| "objectKeys (JArr xs) = map showNat [0..<length xs]"
| "objectKeys (JStr s) = map showNat [0..<length s]"
| "objectKeys (JBuffer bs) = map showNat [0..<length bs]"
| "objectKeys v = []"

text \<open>
  \<open>None\<close> is the result \<^verbatim>\<open>undefined\<close>: a property whose value serializes to
  \<^verbatim>\<open>undefined\<close> is omitted from an object, and such an element of an array is written
  \<^verbatim>\<open>null\<close>. A \<^verbatim>\<open>Buffer\<close> serializes through its \<^verbatim>\<open>toJSON\<close>.
\<close>

fun stringify :: "jsval \<Rightarrow> string option" where
  "stringify JUndefined = None"
| "stringify JNull = Some ''null''"
| "stringify (JBool b) = Some (if b then ''true'' else ''false'')"
| "stringify (JNum n) = Some (showInt n)"
| "stringify (JStr s) = Some (quoteJSONString s)"
| "stringify (JBuffer bs) =
     Some (''{'' @ quoteJSONString ''type'' @ '':'' @ quoteJSONString ''Buffer'' @ '','' @
           quoteJSONString ''data'' @ '':['' @ join '','' (map showNat bs) @ '']}'')"
| "stringify (JArr xs) =
     Some (''['' @ join '','' (map (\<lambda>x. case stringify x of None \<Rightarrow> ''null'' | Some s \<Rightarrow> s) xs) @ '']'')"
| "stringify (JObj ps) =
     Some (''{'' @
           join '',''
             (concat (map (\<lambda>p. case stringify (snd p) of
                                  None \<Rightarrow> []
                                | Some s \<Rightarrow> [quoteJSONString (fst p) @ '':'' @ s]) ps)) @
           ''}'')"

text \<open>
  \<^verbatim>\<open>prettyJSONStringify\<close>: \<^verbatim>\<open>JSON.stringify(value) + '\n'\<close>; string concatenation writes
  \<^verbatim>\<open>undefined\<close> as that word.
\<close>

definition prettyJSONStringify :: "jsval \<Rightarrow> string" where
  "prettyJSONStringify v =
     (case stringify v of None \<Rightarrow> ''undefined'' | Some s \<Rightarrow> s) @ [newline]"

section \<open>runHttpQuery.ts: from the HTTP request to the GraphQL request\<close>

text \<open>\<^verbatim>\<open>GraphQLRequest\<close>: each field is optional (\<open>None\<close> is \<^verbatim>\<open>undefined\<close>).\<close>

record GraphQLRequest =
  query :: "string option"
  operationName :: "string option"
  variables :: "(string \<times> jsval) list option"
  extensionsField :: "(string \<times> jsval) list option"
  http :: "jsval HTTPGraphQLRequest"

definition debugFromNodeEnv :: "string \<Rightarrow> bool" where
  "debugFromNodeEnv nodeEnv = (nodeEnv \<noteq> ''production'' \<and> nodeEnv \<noteq> ''test'')"

definition fieldIfString :: "jsval \<Rightarrow> string \<Rightarrow> string option" where
  "fieldIfString o' fieldName =
     (case getField o' fieldName of JStr s \<Rightarrow> Some s | _ \<Rightarrow> None)"

definition isStringRecord :: "jsval \<Rightarrow> bool" where
  "isStringRecord o' = (truthy o' \<and> typeofObject o' \<and> \<not> isBuffer o' \<and> \<not> isArray o')"

definition isNonEmptyStringRecord :: "jsval \<Rightarrow> bool" where
  "isNonEmptyStringRecord o' = (isStringRecord o' \<and> length (objectKeys o') > 0)"

text \<open>The properties of a value that passed \<^const>\<open>isStringRecord\<close>.\<close>

fun recordOf :: "jsval \<Rightarrow> (string \<times> jsval) list" where
  "recordOf (JObj ps) = ps"
| "recordOf v = []"

definition fieldIfRecord :: "jsval \<Rightarrow> string \<Rightarrow> (string \<times> jsval) list option" where
  "fieldIfRecord o' fieldName =
     (if isStringRecord (getField o' fieldName) then Some (recordOf (getField o' fieldName)) else None)"

text \<open>
  \<^verbatim>\<open>jsonParsedFieldIfNonEmptyString\<close>. \<^verbatim>\<open>JSON.parse\<close> is the parameter \<open>jsonParse\<close>, with
  \<open>None\<close> where it throws.
\<close>

definition jsonParsedFieldIfNonEmptyString ::
  "(string \<Rightarrow> jsval option) \<Rightarrow> jsval \<Rightarrow> string \<Rightarrow> HttpQueryError + (string \<times> jsval) list option" where
  "jsonParsedFieldIfNonEmptyString jsonParse o' fieldName =
     (case getField o' fieldName of
        JStr s \<Rightarrow>
          (if s \<noteq> [] then
             (case jsonParse s of
                None \<Rightarrow>
                  Inl \<lparr> errStatusCode = 400,
                        message = ''The '' @ fieldName @ '' search parameter contains invalid JSON.'',
                        isGraphQLError = False, errHeaders = None \<rparr>
              | Some hopefullyRecord \<Rightarrow>
                  (if \<not> isStringRecord hopefullyRecord then
                     Inl \<lparr> errStatusCode = 400,
                           message = ''The '' @ fieldName @
                             '' search parameter should contain a JSON-encoded object.'',
                           isGraphQLError = False, errHeaders = None \<rparr>
                   else Inr (Some (recordOf hopefullyRecord))))
           else Inr None)
      | _ \<Rightarrow> Inr None)"

definition astGuidance :: string where
  "astGuidance =
     ''GraphQL queries must be strings. It looks like you're sending the '' @
     ''internal graphql-js representation of a parsed query in your '' @
     ''request instead of a request in the GraphQL query language. You '' @
     ''can convert an AST to a string using the `print` function from '' @
     ''`graphql`, or use a client like `apollo-client` which converts '' @
     ''the internal representation to a string for you.''"

text \<open>\<^verbatim>\<open>ensureQueryIsStringOrMissing\<close>: \<open>None\<close> when it returns, the error when it throws.\<close>

definition ensureQueryIsStringOrMissing :: "jsval \<Rightarrow> HttpQueryError option" where
  "ensureQueryIsStringOrMissing q =
     (if \<not> truthy q \<or> typeofString q then None
      else if getField q ''kind'' = JStr ''Document'' then
        Some \<lparr> errStatusCode = 400, message = astGuidance, isGraphQLError = False, errHeaders = None \<rparr>
      else
        Some \<lparr> errStatusCode = 400, message = ''GraphQL queries must be strings.'',
               isGraphQLError = False, errHeaders = None \<rparr>)"

text \<open>
  The \<^verbatim>\<open>switch (httpRequest.method)\<close> of \<^verbatim>\<open>runHttpQuery\<close>, which builds \<^verbatim>\<open>graphqlRequest\<close>
  or throws. In the \<^verbatim>\<open>GET\<close> case the fields of the object literal are evaluated in
  order, so an error in \<^verbatim>\<open>variables\<close> comes before one in \<^verbatim>\<open>extensions\<close>.
\<close>

definition translate ::
  "(string \<Rightarrow> jsval option) \<Rightarrow> jsval HTTPGraphQLRequest \<Rightarrow> HttpQueryError + GraphQLRequest" where
  "translate jsonParse httpRequest =
     (if reqMethod httpRequest = ''POST'' then
        (if \<not> isNonEmptyStringRecord (body httpRequest) then
           Inl \<lparr> errStatusCode = 400,
                 message = ''POST body missing, invalid Content-Type, or JSON object has no keys.'',
                 isGraphQLError = False, errHeaders = None \<rparr>
         else
           (case ensureQueryIsStringOrMissing (getField (body httpRequest) ''query'') of
              Some e \<Rightarrow> Inl e
            | None \<Rightarrow>
                Inr \<lparr> query = fieldIfString (body httpRequest) ''query'',
                      operationName = fieldIfString (body httpRequest) ''operationName'',
                      variables = fieldIfRecord (body httpRequest) ''variables'',
                      extensionsField = fieldIfRecord (body httpRequest) ''extensions'',
                      http = httpRequest \<rparr>))
      else if reqMethod httpRequest = ''GET'' then
        (if \<not> isNonEmptyStringRecord (searchParams httpRequest) then
           Inl \<lparr> errStatusCode = 400, message = ''GET query missing.'',
                 isGraphQLError = False, errHeaders = None \<rparr>
         else
           (case ensureQueryIsStringOrMissing (getField (searchParams httpRequest) ''query'') of
              Some e \<Rightarrow> Inl e
            | None \<Rightarrow>
                (case jsonParsedFieldIfNonEmptyString jsonParse (searchParams httpRequest) ''variables'' of
                   Inl e \<Rightarrow> Inl e
                 | Inr vars \<Rightarrow>
                     (case jsonParsedFieldIfNonEmptyString jsonParse (searchParams httpRequest)
                             ''extensions'' of
                        Inl e \<Rightarrow> Inl e
                      | Inr exts \<Rightarrow>
                          Inr \<lparr> query = fieldIfString (searchParams httpRequest) ''query'',
                                operationName = fieldIfString (searchParams httpRequest) ''operationName'',
                                variables = vars,
                                extensionsField = exts,
                                http = httpRequest \<rparr>))))
      else
        Inl \<lparr> errStatusCode = 405, message = ''Apollo Server supports only GET/POST requests.'',
              isGraphQLError = False, errHeaders = Some [(''Allow'', ''GET, POST'')] \<rparr>)"

section \<open>runHttpQuery.ts: the object store and cloneObject\<close>

text \<open>
  The caller's \<^verbatim>\<open>context\<close> is an object that several operations reach, so objects live
  in a store: an address is a position of the list, and allocation appends. A property
  holds a primitive value or a reference to another object, and is enumerable or not;
  every property is a writable data property (accessors, symbols and frozen objects are
  outside the model). \<open>None\<close> as prototype is \<^verbatim>\<open>null\<close>.
\<close>

type_synonym addr = nat

datatype heapValue = Prim jsval | Ref addr

record property =
  propValue :: heapValue
  enumerable :: bool

record heapObject =
  prototype :: "addr option"
  ownProps :: "(string \<times> property) list"

type_synonym heap = "heapObject list"

text \<open>
  \<^verbatim>\<open>Object.assign(target, source)\<close> on a target without own properties: each own
  enumerable property of the source is assigned, which creates an enumerable property
  holding the same value (for a reference: the same address).
\<close>

definition assignedProps :: "heapObject \<Rightarrow> (string \<times> property) list" where
  "assignedProps source =
     map (\<lambda>(k, p). (k, \<lparr> propValue = propValue p, enumerable = True \<rparr>))
       (filter (\<lambda>(k, p). enumerable p) (ownProps source))"

text \<open>
  \<^verbatim>\<open>cloneObject\<close>: \<^verbatim>\<open>Object.assign(Object.create(Object.getPrototypeOf(object)), object)\<close>.
  It returns the address of the new object and the store that holds it.
\<close>

definition cloneObject :: "heap \<Rightarrow> addr \<Rightarrow> addr \<times> heap" where
  "cloneObject h object =
     (length h,
      h @ [\<lparr> prototype = prototype (h ! object), ownProps = assignedProps (h ! object) \<rparr>])"

text \<open>
  An assignment \<^verbatim>\<open>obj[k] = v\<close> to an own or new property of the object at \<open>a\<close>, and the
  read of an own property (\<open>None\<close>: the object has no such property of its own).
\<close>

definition assignProp :: "heap \<Rightarrow> addr \<Rightarrow> string \<Rightarrow> heapValue \<Rightarrow> heap" where
  "assignProp h a k v =
     h[a := (h ! a) \<lparr> ownProps :=
        AList.update k
          \<lparr> propValue = v,
            enumerable = (case map_of (ownProps (h ! a)) k of None \<Rightarrow> True | Some p \<Rightarrow> enumerable p) \<rparr>
          (ownProps (h ! a)) \<rparr>]"

definition ownProp :: "heap \<Rightarrow> addr \<Rightarrow> string \<Rightarrow> heapValue option" where
  "ownProp h a k = map_option propValue (map_of (ownProps (h ! a)) k)"

text \<open>The enumerable own properties of an object with their values, in order.\<close>

definition enumerableProps :: "heapObject \<Rightarrow> (string \<times> heapValue) list" where
  "enumerableProps obj =
     map (\<lambda>(k, p). (k, propValue p)) (filter (\<lambda>(k, p). enumerable p) (ownProps obj))"

section \<open>runHttpQuery.ts: runHttpQuery\<close>

text \<open>
  The operation type that \<^verbatim>\<open>didResolveOperation\<close> is told (\<^verbatim>\<open>operation.operation\<close>), a
  plugin as far as this code deals with one (\<^verbatim>\<open>requestDidStart\<close> returns a listener or
  throws; the listener's \<^verbatim>\<open>didResolveOperation\<close> returns, \<open>None\<close>, or throws), and of
  the options the fields that \<^verbatim>\<open>runHttpQuery\<close> decides on (\<^verbatim>\<open>logger\<close>, \<^verbatim>\<open>schema\<close> and
  \<^verbatim>\<open>cache\<close> are only handed on).
\<close>

datatype operationType = Query | Mutation | Subscription

record requestListener =
  didResolveOperation :: "operationType \<Rightarrow> thrown option"

record plugin =
  requestDidStart :: "thrown + requestListener"

record GraphQLServerOptions =
  debug :: "bool option"
  nodeEnv :: "string option"
  plugins :: "plugin list option"

text \<open>\<^verbatim>\<open>partialResponse\<close>: \<^verbatim>\<open>Pick<HTTPGraphQLResponse, 'headers' | 'statusCode'>\<close>.\<close>

record HTTPResponsePartial =
  partialHeaders :: headerMap
  partialStatusCode :: "nat option"

text \<open>
  \<^verbatim>\<open>GraphQLRequestContext\<close>: the GraphQL request, \<^verbatim>\<open>response.http\<close>, the address of the
  operation's own copy of the caller's object, and \<^verbatim>\<open>debug\<close>. The fields \<^verbatim>\<open>logger\<close>,
  \<^verbatim>\<open>schema\<close> and \<^verbatim>\<open>cache\<close> are handed on from the options, \<^verbatim>\<open>metrics\<close> and
  \<^verbatim>\<open>overallCachePolicy\<close> are fresh; they are left out.
\<close>

record GraphQLRequestContext =
  request :: GraphQLRequest
  responseHttp :: HTTPResponsePartial
  contextObject :: addr
  rcDebug :: "bool option"

text \<open>
  \<^verbatim>\<open>GraphQLResponse\<close>, what \<^verbatim>\<open>processGraphQLRequest\<close> resolves with. The three fields are
  JavaScript values, \<^const>\<open>JUndefined\<close> when absent; \<^verbatim>\<open>http\<close> is optional.
\<close>

record GraphQLResponse =
  errors :: jsval
  data :: jsval
  extensions :: jsval
  responseHttpOf :: "HTTPResponsePartial option"

datatype pipelineOutcome = Throws thrown | Resolves GraphQLResponse

text \<open>
  What \<^verbatim>\<open>runHttpQuery\<close> uses and the sources at hand do not declare, as parameters: the
  module constant \<^verbatim>\<open>NODE_ENV\<close>; \<^verbatim>\<open>JSON.parse\<close>; \<^verbatim>\<open>formatApolloErrors\<close> of errors.ts, which
  turns the thrown values into the \<^verbatim>\<open>errors\<close> array; the JavaScript object that a thrown
  value is, as \<^verbatim>\<open>JSON.stringify\<close> sees it; and \<^verbatim>\<open>processGraphQLRequest\<close> of
  requestPipeline.ts, which may read and change the object store.
\<close>

record environment =
  NODE_ENV :: string
  jsonParse :: "string \<Rightarrow> jsval option"
  formatApolloErrors :: "thrown list \<Rightarrow> bool option \<Rightarrow> jsval"
  errorObject :: "thrown \<Rightarrow> jsval"
  processGraphQLRequest ::
    "GraphQLServerOptions \<Rightarrow> GraphQLRequestContext \<Rightarrow> heap \<Rightarrow> pipelineOutcome \<times> heap"

text \<open>
  \<^verbatim>\<open>throwHttpGraphQLError\<close>, which always throws: the error it throws. \<open>options\<close> is
  \<open>None\<close> when the argument is left out, and so are \<open>extensions'\<close> (then
  \<^const>\<open>JUndefined\<close>) and \<open>headers'\<close>.
\<close>

definition throwHttpGraphQLError ::
  "environment \<Rightarrow> nat \<Rightarrow> thrown list \<Rightarrow> GraphQLServerOptions option \<Rightarrow> jsval \<Rightarrow>
     (string \<times> string) list option \<Rightarrow> HttpQueryError" where
  "throwHttpGraphQLError env status errs options extensions' headers' =
     (let allHeaders =
            (case headers' of
               None \<Rightarrow> [(''Content-Type'', ''application/json'')]
             | Some hs \<Rightarrow> fold (\<lambda>(name, val). AList.update name val) hs
                           [(''Content-Type'', ''application/json'')]);
          result =
            [(''errors'',
              (case options of
                 Some opts \<Rightarrow> formatApolloErrors env errs (debug opts)
               | None \<Rightarrow> JArr (map (errorObject env) errs)))] @
            (if truthy extensions' then [(''extensions'', extensions')] else [])
      in \<lparr> errStatusCode = status, message = prettyJSONStringify (JObj result),
           isGraphQLError = True, errHeaders = Some allHeaders \<rparr>)"

text \<open>
  The plugin that \<^verbatim>\<open>runHttpQuery\<close> puts in front of the others for a \<^verbatim>\<open>GET\<close> request:
  its \<^verbatim>\<open>didResolveOperation\<close> throws unless the operation is a query.
\<close>

definition guardListener :: requestListener where
  "guardListener =
     \<lparr> didResolveOperation = (\<lambda>operation.
         if operation \<noteq> Query then
           Some (HttpQueryErr
             \<lparr> errStatusCode = 405, message = ''GET supports only query operation'',
               isGraphQLError = False, errHeaders = Some [(''Allow'', ''POST'')] \<rparr>)
         else None) \<rparr>"

definition getGuard :: plugin where
  "getGuard = \<lparr> requestDidStart = Inr guardListener \<rparr>"

definition installedPlugins :: "jsval HTTPGraphQLRequest \<Rightarrow> GraphQLServerOptions \<Rightarrow> plugin list" where
  "installedPlugins httpRequest options =
     (let plugins0 = (case plugins options of None \<Rightarrow> [] | Some ps \<Rightarrow> ps)
      in if reqMethod httpRequest = ''GET'' then getGuard # plugins0 else plugins0)"

text \<open>\<^verbatim>\<open>serializeGraphQLResponse\<close>: the object literal with the three fields in this order.\<close>

definition serializeGraphQLResponse :: "GraphQLResponse \<Rightarrow> jsval" where
  "serializeGraphQLResponse response =
     JObj [(''errors'', errors response), (''data'', data response),
           (''extensions'', extensions response)]"

text \<open>
  The \<^verbatim>\<open>catch (error)\<close> clause of \<^verbatim>\<open>runHttpQuery\<close>: an \<^verbatim>\<open>HttpQueryError\<close> is thrown on as
  it is, anything else is wrapped by \<^verbatim>\<open>throwHttpGraphQLError(500, [error], options)\<close>.
\<close>

definition catchClause :: "environment \<Rightarrow> GraphQLServerOptions \<Rightarrow> thrown \<Rightarrow> thrown" where
  "catchClause env options error =
     (case error of
        HttpQueryErr e \<Rightarrow> HttpQueryErr e
      | OtherError m \<Rightarrow>
          HttpQueryErr (throwHttpGraphQLError env 500 [error] (Some options) JUndefined None))"

text \<open>
  What \<^verbatim>\<open>runHttpQuery\<close> does with the \<^verbatim>\<open>response\<close> of the pipeline. With errors and no
  data it returns the error-only response; spreading \<^verbatim>\<open>response.http?.headers.entries()\<close>
  throws a \<^verbatim>\<open>TypeError\<close> inside the \<^verbatim>\<open>try\<close> when \<^verbatim>\<open>response.http\<close> is undefined. Otherwise
  it serializes the response into \<^verbatim>\<open>body\<close> and leaves the \<^verbatim>\<open>try\<close>; the statement that
  follows, \<^verbatim>\<open>responseInit.headers!['Content-Length'] = ...\<close>, refers to a variable
  \<^verbatim>\<open>responseInit\<close> that the file declares nowhere, so evaluating it throws a
  \<^verbatim>\<open>ReferenceError\<close>, outside the \<^verbatim>\<open>try\<close>, and the \<^verbatim>\<open>return\<close> after it is never reached.
\<close>

definition errorOnlyBody :: "GraphQLResponse \<Rightarrow> string" where
  "errorOnlyBody response =
     prettyJSONStringify (JObj [(''errors'', errors response), (''extensions'', extensions response)])"

definition afterPipeline ::
  "environment \<Rightarrow> GraphQLServerOptions \<Rightarrow> GraphQLResponse \<Rightarrow> thrown + HTTPGraphQLResponse" where
  "afterPipeline env options response =
     (if truthy (errors response) \<and> data response = JUndefined then
        (case responseHttpOf response of
           None \<Rightarrow>
             Inl (catchClause env options (OtherError ''undefined is not iterable''))
         | Some p \<Rightarrow>
             Inr \<lparr> statusCode =
                     Some (case partialStatusCode p of
                             None \<Rightarrow> 400
                           | Some n \<Rightarrow> if n \<noteq> 0 then n else 400),
                   headers = mapFromEntries ((''content-type'', ''application/json'') # partialHeaders p),
                   completeBody = Some (errorOnlyBody response) \<rparr>)
      else
        (let body' = prettyJSONStringify (serializeGraphQLResponse response)
         in Inl (OtherError ''responseInit is not defined'')))"

text \<open>
  \<^verbatim>\<open>runHttpQuery\<close>, on the request, the address of the caller's \<^verbatim>\<open>context\<close> object and
  the options, in the store \<open>h\<close>: what it throws (\<open>Inl\<close>) or returns (\<open>Inr\<close>), and the
  store afterwards.
\<close>

definition optionsWithDebug :: "environment \<Rightarrow> GraphQLServerOptions \<Rightarrow> GraphQLServerOptions" where
  "optionsWithDebug env options =
     (case debug options of
        None \<Rightarrow>
          options \<lparr> debug := Some (debugFromNodeEnv
            (case nodeEnv options of None \<Rightarrow> NODE_ENV env | Some e \<Rightarrow> e)) \<rparr>
      | Some d \<Rightarrow> options)"

text \<open>The local copy of \<^verbatim>\<open>options\<close>, with \<^verbatim>\<open>debug\<close> settled and the plugins in place.\<close>

definition localOptions ::
  "environment \<Rightarrow> jsval HTTPGraphQLRequest \<Rightarrow> GraphQLServerOptions \<Rightarrow> GraphQLServerOptions" where
  "localOptions env httpRequest options0 =
     (optionsWithDebug env options0)
       \<lparr> plugins := Some (installedPlugins httpRequest (optionsWithDebug env options0)) \<rparr>"

definition requestContextFor ::
  "GraphQLServerOptions \<Rightarrow> GraphQLRequest \<Rightarrow> addr \<Rightarrow> GraphQLRequestContext" where
  "requestContextFor options graphqlRequest clone =
     \<lparr> request = graphqlRequest,
       responseHttp =
         \<lparr> partialHeaders = [(''content-type'', ''application/json'')], partialStatusCode = None \<rparr>,
       contextObject = clone,
       rcDebug = debug options \<rparr>"

definition runHttpQuery ::
  "environment \<Rightarrow> jsval HTTPGraphQLRequest \<Rightarrow> addr \<Rightarrow> GraphQLServerOptions \<Rightarrow> heap
     \<Rightarrow> (thrown + HTTPGraphQLResponse) \<times> heap" where
  "runHttpQuery env httpRequest context' options0 h =
     (case translate (jsonParse env) httpRequest of
        Inl e \<Rightarrow> (Inl (HttpQueryErr e), h)
      | Inr graphqlRequest \<Rightarrow>
          (let options = localOptions env httpRequest options0;
               (clone, h1) = cloneObject h context';
               requestContext = requestContextFor options graphqlRequest clone
           in case processGraphQLRequest env options requestContext h1 of
                (Throws error, h2) \<Rightarrow> (Inl (catchClause env options error), h2)
              | (Resolves response, h2) \<Rightarrow> (afterPipeline env options response, h2)))"

section \<open>requestPipeline.ts: the stages of processGraphQLRequest\<close>

text \<open>
  Modelled from the spec: \<^verbatim>\<open>processGraphQLRequest\<close> (requestPipeline.ts is not among the
  sources). The spec's single-operation pipeline parses the query, validates the
  document, resolves the operation and executes it; parsing, validation and execution
  are capabilities of the execution engine, parameters here. Parse and validation errors
  are reported as a response with \<^verbatim>\<open>errors\<close> and no \<^verbatim>\<open>data\<close>. The plugin hooks run at
  request start and at operation resolution, in the order of the plugin list, and a
  hook that throws ends the operation with what it threw. The lookup in the document
  store that precedes parsing is left out: it changes neither the stages nor their order.
  The second component of the result lists the stages that were entered.
\<close>

record capabilities =
  parseQuery :: "string option \<Rightarrow> jsval list + jsval"
  validateDocument :: "jsval \<Rightarrow> jsval list"
  resolveOperation :: "jsval \<Rightarrow> string option \<Rightarrow> jsval list + operationType"
  executeOperation :: "jsval \<Rightarrow> GraphQLRequest \<Rightarrow> addr \<Rightarrow> jsval \<times> jsval \<times> jsval"

datatype stage = RequestStart | Parsing | Validation | OperationResolution | Execution

fun startPlugins :: "plugin list \<Rightarrow> thrown + requestListener list" where
  "startPlugins [] = Inr []"
| "startPlugins (p # ps) =
     (case requestDidStart p of
        Inl e \<Rightarrow> Inl e
      | Inr l \<Rightarrow> (case startPlugins ps of Inl e \<Rightarrow> Inl e | Inr ls \<Rightarrow> Inr (l # ls)))"

fun invokeDidResolveOperation :: "requestListener list \<Rightarrow> operationType \<Rightarrow> thrown option" where
  "invokeDidResolveOperation [] operation = None"
| "invokeDidResolveOperation (l # ls) operation =
     (case didResolveOperation l operation of
        Some e \<Rightarrow> Some e
      | None \<Rightarrow> invokeDidResolveOperation ls operation)"

definition errorResponse :: "GraphQLRequestContext \<Rightarrow> jsval list \<Rightarrow> pipelineOutcome" where
  "errorResponse requestContext errs =
     Resolves \<lparr> errors = JArr errs, data = JUndefined, extensions = JUndefined,
                responseHttpOf = Some (responseHttp requestContext) \<rparr>"

definition pipelineStages ::
  "capabilities \<Rightarrow> GraphQLServerOptions \<Rightarrow> GraphQLRequestContext \<Rightarrow> pipelineOutcome \<times> stage list" where
  "pipelineStages caps options requestContext =
     (case startPlugins (case plugins options of None \<Rightarrow> [] | Some ps \<Rightarrow> ps) of
        Inl e \<Rightarrow> (Throws e, [RequestStart])
      | Inr listeners \<Rightarrow>
          (case parseQuery caps (query (request requestContext)) of
             Inl errs \<Rightarrow> (errorResponse requestContext errs, [RequestStart, Parsing])
           | Inr document \<Rightarrow>
               (case validateDocument caps document of
                  e # es \<Rightarrow>
                    (errorResponse requestContext (e # es), [RequestStart, Parsing, Validation])
                | [] \<Rightarrow>
                    (case resolveOperation caps document (operationName (request requestContext)) of
                       Inl errs \<Rightarrow>
                         (errorResponse requestContext errs,
                          [RequestStart, Parsing, Validation, OperationResolution])
                     | Inr operation \<Rightarrow>
                         (case invokeDidResolveOperation listeners operation of
                            Some e \<Rightarrow>
                              (Throws e, [RequestStart, Parsing, Validation, OperationResolution])
                          | None \<Rightarrow>
                              (case executeOperation caps document (request requestContext)
                                      (contextObject requestContext) of
                                 (errs, dat, exts) \<Rightarrow>
                                   (Resolves \<lparr> errors = errs, data = dat, extensions = exts,
                                                responseHttpOf = Some (responseHttp requestContext) \<rparr>,
                                    [RequestStart, Parsing, Validation, OperationResolution,
                                     Execution])))))))"

text \<open>The pipeline as \<^verbatim>\<open>runHttpQuery\<close> calls it; these stages leave the object store alone.\<close>

definition stagedPipeline ::
  "capabilities \<Rightarrow> GraphQLServerOptions \<Rightarrow> GraphQLRequestContext \<Rightarrow> heap \<Rightarrow> pipelineOutcome \<times> heap" where
  "stagedPipeline caps options requestContext h = (fst (pipelineStages caps options requestContext), h)"

section \<open>KeyvLRU.ts: the document store\<close>

text \<open>
  \<^verbatim>\<open>LRU.jsonBytesSizeCalculator\<close>: \<^verbatim>\<open>Buffer.byteLength(JSON.stringify(obj), 'utf8')\<close>. Strings
  are byte lists here, so the byte length is the length; \<open>None\<close> is the \<^verbatim>\<open>TypeError\<close> of
  \<^verbatim>\<open>Buffer.byteLength\<close> on \<^verbatim>\<open>undefined\<close>, which \<^verbatim>\<open>JSON.stringify\<close> returns for a value it
  does not serialize.
\<close>

definition jsonBytesSizeCalculator :: "jsval \<Rightarrow> nat option" where
  "jsonBytesSizeCalculator obj = map_option length (stringify obj)"

text \<open>
  Modelled from the spec: the cache behind \<^verbatim>\<open>class LRU\<close> (the class \<^verbatim>\<open>LRUCache\<close> of the
  package lru-cache, which \<^verbatim>\<open>LRU\<close> extends, is not among the sources). The spec's document
  cache has a capacity in bytes, a size per entry computed once when the entry is set,
  and least-recently-used eviction where reading and setting both count as access. Where
  the spec is silent the cache does what the package does: a capacity of 0 in the
  constructor means no limit (\<^verbatim>\<open>options.max || Infinity\<close>), and a value whose own size
  exceeds the capacity is not stored (the entry under its key, if any, is removed and
  nothing else is evicted). The entries are kept with the least recently used first,
  each with the size computed when it was set; \<open>total\<close> is the cache's running
  \<^verbatim>\<open>length\<close>; \<open>maxSize\<close> is \<open>None\<close> for no limit.
\<close>

record lruStore =
  maxSize :: "nat option"
  lengthOf :: "jsval \<Rightarrow> nat option"
  entries :: "(string \<times> jsval \<times> nat) list"
  total :: nat

definition newLRU :: "nat \<Rightarrow> (jsval \<Rightarrow> nat option) \<Rightarrow> lruStore" where
  "newLRU mx len =
     \<lparr> maxSize = (if mx = 0 then None else Some mx), lengthOf = len, entries = [], total = 0 \<rparr>"

definition overCapacity :: "nat option \<Rightarrow> nat \<Rightarrow> bool" where
  "overCapacity mx n = (case mx of None \<Rightarrow> False | Some m \<Rightarrow> n > m)"

definition entrySize :: "string \<times> jsval \<times> nat \<Rightarrow> nat" where
  "entrySize e = snd (snd e)"

definition withoutKey :: "string \<Rightarrow> (string \<times> jsval \<times> nat) list \<Rightarrow> (string \<times> jsval \<times> nat) list" where
  "withoutKey key es = filter (\<lambda>e. fst e \<noteq> key) es"

definition sizeUnder :: "string \<Rightarrow> (string \<times> jsval \<times> nat) list \<Rightarrow> nat" where
  "sizeUnder key es = (case find (\<lambda>e. fst e = key) es of None \<Rightarrow> 0 | Some e \<Rightarrow> entrySize e)"

text \<open>Eviction: while the total exceeds the capacity, the least recently used entry goes.\<close>

fun evict ::
  "nat option \<Rightarrow> nat \<Rightarrow> (string \<times> jsval \<times> nat) list \<Rightarrow> nat \<times> (string \<times> jsval \<times> nat) list" where
  "evict mx tot [] = (tot, [])"
| "evict mx tot (e # es) =
     (if overCapacity mx tot then evict mx (tot - entrySize e) es else (tot, e # es))"

text \<open>The cache's \<^verbatim>\<open>get\<close>: the value under the key, which becomes the most recently used entry.\<close>

definition lruGet :: "string \<Rightarrow> lruStore \<Rightarrow> jsval option \<times> lruStore" where
  "lruGet key store =
     (case find (\<lambda>e. fst e = key) (entries store) of
        None \<Rightarrow> (None, store)
      | Some e \<Rightarrow>
          (Some (fst (snd e)), store \<lparr> entries := withoutKey key (entries store) @ [e] \<rparr>))"

text \<open>
  The cache's \<^verbatim>\<open>del\<close> and \<^verbatim>\<open>reset\<close>, which \<^verbatim>\<open>LRU.delete\<close> (\<^verbatim>\<open>super.del(key)\<close>, then
  \<^verbatim>\<open>true\<close>) and \<^verbatim>\<open>LRU.clear\<close> (\<^verbatim>\<open>super.reset()\<close>) call.
\<close>

definition lruDel :: "string \<Rightarrow> lruStore \<Rightarrow> lruStore" where
  "lruDel key store =
     store \<lparr> entries := withoutKey key (entries store),
             total := total store - sizeUnder key (entries store) \<rparr>"

definition lruReset :: "lruStore \<Rightarrow> lruStore" where
  "lruReset store = store \<lparr> entries := [], total := 0 \<rparr>"

text \<open>
  The cache's \<^verbatim>\<open>set\<close>: the size of the value is computed once, by the \<^verbatim>\<open>length\<close> function
  of the constructor; \<open>Inl\<close> when that throws, and the cache is unchanged. A value larger
  than the capacity is refused (\<open>Inr False\<close>). Otherwise the entry replaces the one under
  the same key, becomes the most recently used, and entries are evicted until the total
  fits.
\<close>

definition lruSet :: "string \<Rightarrow> jsval \<Rightarrow> lruStore \<Rightarrow> (thrown + bool) \<times> lruStore" where
  "lruSet key v store =
     (case lengthOf store v of
        None \<Rightarrow> (Inl (OtherError ''The string argument must be of type string. Received undefined''), store)
      | Some n \<Rightarrow>
          (if overCapacity (maxSize store) n then (Inr False, lruDel key store)
           else
             (let (tot, es) = evict (maxSize store) (total store - sizeUnder key (entries store) + n)
                                (withoutKey key (entries store) @ [(key, v, n)])
              in (Inr True, store \<lparr> entries := es, total := tot \<rparr>))))"

text \<open>
  What \<^verbatim>\<open>Keyv\<close>, the class \<^verbatim>\<open>KeyvLRU\<close> extends, puts between the caller and the cache. The
  package keyv is not among the sources; its part here is taken as the package has it,
  and the size that documentStore.test.ts expects for its document agrees with it (the
  lemma \<open>documentStore_test_total_size\<close> below). The key is prefixed with the namespace,
  \<^verbatim>\<open>apollo:\<close>. The value is wrapped as \<^verbatim>\<open>{ value, expires: null }\<close> and serialized to a
  string by the package json-buffer, and the string is what the cache stores and
  measures. That serializer writes JSON, except that a string (or key) that starts with a
  colon gets one more colon in front and a \<^verbatim>\<open>Buffer\<close> becomes the string \<^verbatim>\<open>:base64:\<close> and
  its bytes in base 64; \<open>None\<close> is its result \<^verbatim>\<open>undefined\<close>.
\<close>

definition base64Digit :: "nat \<Rightarrow> char" where
  "base64Digit n =
     ''ABCDEFGHIJKLMNOPQRSTUVWXYZabcdefghijklmnopqrstuvwxyz0123456789+/'' ! (n mod 64)"

fun base64 :: "nat list \<Rightarrow> string" where
  "base64 [] = []"
| "base64 [a] = [base64Digit (a div 4), base64Digit ((a mod 4) * 16), CHR ''='', CHR ''='']"
| "base64 [a, b] =
     [base64Digit (a div 4), base64Digit ((a mod 4) * 16 + b div 16),
      base64Digit ((b mod 16) * 4), CHR ''='']"
| "base64 (a # b # c # bs) =
     [base64Digit (a div 4), base64Digit ((a mod 4) * 16 + b div 16),
      base64Digit ((b mod 16) * 4 + c div 64), base64Digit (c mod 64)] @ base64 bs"

definition jsonbString :: "string \<Rightarrow> string" where
  "jsonbString s = quoteJSONString (case s of [] \<Rightarrow> [] | c # cs \<Rightarrow> if c = CHR '':'' then c # c # cs else c # cs)"

fun jsonbStringify :: "jsval \<Rightarrow> string option" where
  "jsonbStringify JUndefined = None"
| "jsonbStringify JNull = Some ''null''"
| "jsonbStringify (JBool b) = Some (if b then ''true'' else ''false'')"
| "jsonbStringify (JNum n) = Some (showInt n)"
| "jsonbStringify (JStr s) = Some (jsonbString s)"
| "jsonbStringify (JBuffer bs) = Some (quoteJSONString ('':base64:'' @ base64 bs))"
| "jsonbStringify (JArr xs) =
     Some (''['' @
           join '','' (map (\<lambda>x. if x = JUndefined \<or> x = JNull then ''null''
                                else (case jsonbStringify x of None \<Rightarrow> ''null'' | Some s \<Rightarrow> s)) xs) @
           '']'')"
| "jsonbStringify (JObj ps) =
     Some (''{'' @
           join '',''
             (concat (map (\<lambda>p. case jsonbStringify (snd p) of
                                  None \<Rightarrow> []
                                | Some s \<Rightarrow> [jsonbString (fst p) @ '':'' @ s]) ps)) @
           ''}'')"

definition keyPrefix :: "string \<Rightarrow> string" where
  "keyPrefix key = ''apollo:'' @ key"

definition keyvStored :: "jsval \<Rightarrow> jsval" where
  "keyvStored document =
     JStr (case jsonbStringify (JObj [(''value'', document), (''expires'', JNull)]) of
             None \<Rightarrow> [] | Some s \<Rightarrow> s)"

text \<open>
  The constructor of \<^verbatim>\<open>KeyvLRU\<close> without options: the cache has
  \<^verbatim>\<open>max: Math.pow(2, 20) * 30\<close> and \<^verbatim>\<open>length(obj) { return LRU.jsonBytesSizeCalculator(obj) }\<close>.
  \<^verbatim>\<open>getTotalSize\<close> reads the cache's \<^verbatim>\<open>length\<close>.
\<close>

definition newKeyvLRU :: lruStore where
  "newKeyvLRU = newLRU (2 ^ 20 * 30) jsonBytesSizeCalculator"

definition getTotalSize :: "lruStore \<Rightarrow> nat" where
  "getTotalSize store = total store"

text \<open>
  The four uses of the document store through \<^verbatim>\<open>Keyv\<close>. Its \<^verbatim>\<open>get\<close> reads the cache,
  parses the stored string back (json-buffer's \<^verbatim>\<open>parse\<close>, the parameter \<open>jsonbParse\<close>) and
  gives the \<^verbatim>\<open>value\<close> of the wrapper, \<^verbatim>\<open>undefined\<close> when there is none; the wrapper was
  stored with \<^verbatim>\<open>expires: null\<close>, so the entry never counts as expired.
\<close>

definition keyvGet :: "(string \<Rightarrow> jsval) \<Rightarrow> string \<Rightarrow> lruStore \<Rightarrow> jsval \<times> lruStore" where
  "keyvGet jsonbParse key store =
     (case lruGet (keyPrefix key) store of
        (None, store') \<Rightarrow> (JUndefined, store')
      | (Some stored, store') \<Rightarrow>
          (let data = (case stored of JStr text \<Rightarrow> jsonbParse text | _ \<Rightarrow> stored)
           in if data = JUndefined \<or> data = JNull then (JUndefined, store')
              else (getField data ''value'', store')))"

definition keyvSet :: "string \<Rightarrow> jsval \<Rightarrow> lruStore \<Rightarrow> (thrown + bool) \<times> lruStore" where
  "keyvSet key document store = lruSet (keyPrefix key) (keyvStored document) store"

definition keyvDelete :: "string \<Rightarrow> lruStore \<Rightarrow> bool \<times> lruStore" where
  "keyvDelete key store = (True, lruDel (keyPrefix key) store)"

definition keyvClear :: "lruStore \<Rightarrow> lruStore" where
  "keyvClear store = lruReset store"

text \<open>A use of the store, and a sequence of uses from left to right.\<close>

datatype storeOp = Get string | Set string jsval | Delete string | Clear

fun applyOp :: "(string \<Rightarrow> jsval) \<Rightarrow> storeOp \<Rightarrow> lruStore \<Rightarrow> lruStore" where
  "applyOp jsonbParse (Get key) store = snd (keyvGet jsonbParse key store)"
| "applyOp jsonbParse (Set key document) store = snd (keyvSet key document store)"
| "applyOp jsonbParse (Delete key) store = snd (keyvDelete key store)"
| "applyOp jsonbParse Clear store = keyvClear store"

definition applyOps :: "(string \<Rightarrow> jsval) \<Rightarrow> storeOp list \<Rightarrow> lruStore \<Rightarrow> lruStore" where
  "applyOps jsonbParse ops store = fold (applyOp jsonbParse) ops store"

text \<open>
  The invariant of the store: the keys are distinct, the running total is the sum of
  the sizes of the live entries, every size is the one the size function gives for the
  stored value, every stored value is the string \<^verbatim>\<open>Keyv\<close> made of a document, and the
  total is within the capacity.
\<close>

definition storeInvariant :: "lruStore \<Rightarrow> bool" where
  "storeInvariant store =
     (distinct (map fst (entries store)) \<and>
      total store = sum_list (map entrySize (entries store)) \<and>
      list_all (\<lambda>e. lengthOf store (fst (snd e)) = Some (entrySize e)) (entries store) \<and>
      list_all (\<lambda>e. \<exists>document. fst (snd e) = keyvStored document) (entries store) \<and>
      \<not> overCapacity (maxSize store) (total store))"

section \<open>Notions of the specification\<close>

text \<open>
  The text of one member of a JSON object as the specification's wire format has it: the
  key in double quotes, a colon and the serialized value; no text at all for a value that
  is absent.
\<close>

definition member :: "string \<Rightarrow> jsval \<Rightarrow> string list" where
  "member key v =
     (case stringify v of None \<Rightarrow> [] | Some s \<Rightarrow> [[dquote] @ key @ [dquote] @ '':'' @ s])"

text \<open>
  The object that carries the GraphQL fields of a request: the body of a \<^verbatim>\<open>POST\<close>, the
  search parameters otherwise.
\<close>

definition requestFields :: "jsval HTTPGraphQLRequest \<Rightarrow> jsval" where
  "requestFields httpRequest =
     (if reqMethod httpRequest = ''POST'' then body httpRequest else searchParams httpRequest)"

definition helloResponse :: GraphQLResponse where
  "helloResponse =
     \<lparr> errors = JUndefined, data = JObj [(''hello'', JStr ''world'')],
       extensions = JUndefined, responseHttpOf = None \<rparr>"

section \<open>Concrete inputs for the examples\<close>


text \<open>
  Four uses of a store: with a capacity of ninety bytes, setting \<^verbatim>\<open>c\<close> evicts \<^verbatim>\<open>b\<close>, the
  least recently used entry once \<^verbatim>\<open>a\<close> has been read. The document of the query
  \<^verbatim>\<open>query { hello }\<close> as documentStore.test.ts stores it, its locations as their
  \<^verbatim>\<open>toJSON\<close> gives them. \<open>unparsed\<close> stands in for json-buffer's \<^verbatim>\<open>parse\<close> in the example:
  it leaves the stored text as the value.
\<close>

definition unparsed :: "string \<Rightarrow> jsval" where
  "unparsed text = JObj [(''value'', JStr text), (''expires'', JNull)]"

definition smallStoreOps :: "storeOp list" where
  "smallStoreOps = [Set ''a'' (JStr ''xx''), Set ''b'' (JStr ''yyy''), Get ''a'', Set ''c'' (JStr ''z'')]"

definition loc :: "int \<Rightarrow> int \<Rightarrow> jsval" where
  "loc s e = JObj [(''start'', JNum s), (''end'', JNum e)]"

definition helloDocument :: jsval where
  "helloDocument =
     JObj [(''kind'', JStr ''Document''),
           (''definitions'', JArr [
              JObj [(''kind'', JStr ''OperationDefinition''),
                    (''operation'', JStr ''query''),
                    (''name'', JUndefined),
                    (''variableDefinitions'', JArr []),
                    (''directives'', JArr []),
                    (''selectionSet'',
                       JObj [(''kind'', JStr ''SelectionSet''),
                             (''selections'', JArr [
                                JObj [(''kind'', JStr ''Field''),
                                      (''alias'', JUndefined),
                                      (''name'', JObj [(''kind'', JStr ''Name''),
                                                       (''value'', JStr ''hello''),
                                                       (''loc'', loc 8 13)]),
                                      (''arguments'', JArr []),
                                      (''directives'', JArr []),
                                      (''selectionSet'', JUndefined),
                                      (''loc'', loc 8 13)]]),
                             (''loc'', loc 6 15)]),
                    (''loc'', loc 0 15)]]),
           (''loc'', loc 0 15)]"

definition mutationOverGet :: "jsval HTTPGraphQLRequest" where
  "mutationOverGet =
     \<lparr> reqMethod = ''GET'', reqHeaders = [], pathname = ''/'',
       searchParams = JObj [(''query'', JStr ''mutation { bump }'')], body = JUndefined \<rparr>"


text \<open>
  An execution engine that knows two documents, the query \<^verbatim>\<open>{ hello }\<close> and the mutation
  \<^verbatim>\<open>mutation { bump }\<close>, and an environment around it; a store with the caller's object at
  address 0, whose property \<^verbatim>\<open>db\<close> refers to the object at address 1 and whose
  prototype is the object at address 2.
\<close>

definition sampleCaps :: capabilities where
  "sampleCaps =
     \<lparr> parseQuery = (\<lambda>q.
         if q = Some ''{ hello }'' then
           Inr (JObj [(''kind'', JStr ''Document''), (''operation'', JStr ''query'')])
         else if q = Some ''mutation { bump }'' then
           Inr (JObj [(''kind'', JStr ''Document''), (''operation'', JStr ''mutation'')])
         else Inl [JObj [(''message'', JStr ''Syntax Error'')]]),
       validateDocument = (\<lambda>d. []),
       resolveOperation = (\<lambda>d name.
         if getField d ''operation'' = JStr ''mutation'' then Inr Mutation else Inr Query),
       executeOperation = (\<lambda>d r c. (JUndefined, JObj [(''hello'', JStr ''world'')], JUndefined)) \<rparr>"

definition sampleEnv :: environment where
  "sampleEnv =
     \<lparr> NODE_ENV = ''test'',
       jsonParse = (\<lambda>s. if s = ''{}'' then Some (JObj []) else None),
       formatApolloErrors = (\<lambda>errs dbg. JArr (map (\<lambda>e. JObj [(''message'', JStr ''Internal'')]) errs)),
       errorObject = (\<lambda>e. JObj []),
       processGraphQLRequest = stagedPipeline sampleCaps \<rparr>"

definition sampleOptions :: GraphQLServerOptions where
  "sampleOptions = \<lparr> debug = None, nodeEnv = None, plugins = None \<rparr>"

definition sampleHeap :: heap where
  "sampleHeap =
     [\<lparr> prototype = Some 2,
        ownProps =
          [(''user'', \<lparr> propValue = Prim (JStr ''ann''), enumerable = True \<rparr>),
           (''db'', \<lparr> propValue = Ref 1, enumerable = True \<rparr>),
           (''secret'', \<lparr> propValue = Prim (JNum 7), enumerable = False \<rparr>)] \<rparr>,
      \<lparr> prototype = None,
        ownProps = [(''open'', \<lparr> propValue = Prim (JBool True), enumerable = True \<rparr>)] \<rparr>,
      \<lparr> prototype = None, ownProps = [] \<rparr>]"

definition postRequest :: "jsval \<Rightarrow> jsval HTTPGraphQLRequest" where
  "postRequest b =
     \<lparr> reqMethod = ''POST'', reqHeaders = [], pathname = ''/'', searchParams = JObj [], body = b \<rparr>"

definition getRequest :: "jsval \<Rightarrow> jsval HTTPGraphQLRequest" where
  "getRequest sp =
     \<lparr> reqMethod = ''GET'', reqHeaders = [], pathname = ''/'', searchParams = sp, body = JUndefined \<rparr>"

section \<open>Verification: the batch coordinator\<close>

lemma copyHeaders_lookup:
  "map_of (copyHeaders norm hs c) k =
     (case map_of (rev (map (\<lambda>(key, val). (norm key, val)) hs)) k of
        Some v \<Rightarrow> Some v | None \<Rightarrow> map_of c k)"
proof (induction hs arbitrary: c)
  case Nil
  show ?case by (simp add: copyHeaders_def)
next
  case (Cons p ps)
  obtain a b where p: "p = (a, b)" by (cases p)
  have step: "copyHeaders norm (p # ps) c = copyHeaders norm ps (AList.update (norm a) b c)"
    by (simp add: copyHeaders_def headerSet_def p)
  show ?case
    unfolding step Cons.IH
    by (simp add: p map_of_append update_conv' map_add_def split: option.splits)
qed

lemma complete_ok:
  assumes "i < length (responseBodies st)" "i \<notin> set (settled st)" "completeBody r = Some b"
  shows "complete norm i (Inr r) st =
     st \<lparr> combined := (combined st)
            \<lparr> headers := copyHeaders norm (headers r) (headers (combined st)),
              statusCode := (if truthyNum (statusCode r) then statusCode r else statusCode (combined st)) \<rparr>,
          responseBodies := (responseBodies st)[i := Some b],
          settled := i # settled st \<rparr>"
  using assms by (simp add: complete_def afterAwait_def)

lemma fold_complete_ok:
  assumes "distinct order"
    and "\<forall>i\<in>set order. i < length (responseBodies st) \<and> i \<notin> set (settled st)"
    and "\<forall>i\<in>set order. f i = Inr (resp i) \<and> completeBody (resp i) = Some (bodyOf i)"
  shows "fold (\<lambda>i. complete norm i (f i)) order st =
     st \<lparr> combined := (combined st)
            \<lparr> headers := fold (\<lambda>i. copyHeaders norm (headers (resp i))) order (headers (combined st)),
              statusCode := fold (\<lambda>i s. if truthyNum (statusCode (resp i)) then statusCode (resp i) else s)
                              order (statusCode (combined st)) \<rparr>,
          responseBodies := fold (\<lambda>i bs. bs[i := Some (bodyOf i)]) order (responseBodies st),
          settled := rev order @ settled st \<rparr>"
  using assms
proof (induction order arbitrary: st)
  case Nil
  show ?case by simp
next
  case (Cons i order)
  let ?st1 = "complete norm i (f i) st"
  have fi: "f i = Inr (resp i)" "completeBody (resp i) = Some (bodyOf i)"
    using Cons.prems(3) by auto
  have i: "i < length (responseBodies st)" "i \<notin> set (settled st)"
    using Cons.prems(2) by auto
  have st1: "?st1 = st \<lparr> combined := (combined st)
            \<lparr> headers := copyHeaders norm (headers (resp i)) (headers (combined st)),
              statusCode := (if truthyNum (statusCode (resp i)) then statusCode (resp i) else statusCode (combined st)) \<rparr>,
          responseBodies := (responseBodies st)[i := Some (bodyOf i)],
          settled := i # settled st \<rparr>"
    unfolding fi(1) by (rule complete_ok [OF i fi(2)])
  have d: "distinct order" "i \<notin> set order" using Cons.prems(1) by auto
  have p2: "\<forall>j\<in>set order. j < length (responseBodies ?st1) \<and> j \<notin> set (settled ?st1)"
    unfolding st1 using Cons.prems(2) d by auto
  have p3: "\<forall>j\<in>set order. f j = Inr (resp j) \<and> completeBody (resp j) = Some (bodyOf j)"
    using Cons.prems(3) by auto
  have "fold (\<lambda>i. complete norm i (f i)) (i # order) st = fold (\<lambda>i. complete norm i (f i)) order ?st1"
    by simp
  also have "\<dots> = ?st1 \<lparr> combined := (combined ?st1)
            \<lparr> headers := fold (\<lambda>i. copyHeaders norm (headers (resp i))) order (headers (combined ?st1)),
              statusCode := fold (\<lambda>i s. if truthyNum (statusCode (resp i)) then statusCode (resp i) else s)
                              order (statusCode (combined ?st1)) \<rparr>,
          responseBodies := fold (\<lambda>i bs. bs[i := Some (bodyOf i)]) order (responseBodies ?st1),
          settled := rev order @ settled ?st1 \<rparr>"
    by (rule Cons.IH [OF d(1) p2 p3])
  also have "\<dots> = st \<lparr> combined := (combined st)
            \<lparr> headers := fold (\<lambda>i. copyHeaders norm (headers (resp i))) (i # order) (headers (combined st)),
              statusCode := fold (\<lambda>i s. if truthyNum (statusCode (resp i)) then statusCode (resp i) else s)
                              (i # order) (statusCode (combined st)) \<rparr>,
          responseBodies := fold (\<lambda>i bs. bs[i := Some (bodyOf i)]) (i # order) (responseBodies st),
          settled := rev (i # order) @ settled st \<rparr>"
    unfolding st1 by simp
  finally show ?case .
qed

lemma fold_update_length: "length (fold (\<lambda>i bs. bs[i := g i]) order bs0) = length bs0"
  by (induction order arbitrary: bs0) auto

lemma fold_update_nth:
  "j < length bs0 \<Longrightarrow> distinct order \<Longrightarrow>
   fold (\<lambda>i bs. bs[i := g i]) order bs0 ! j = (if j \<in> set order then g j else bs0 ! j)"
  by (induction order arbitrary: bs0) (auto simp: fold_update_length nth_list_update)

lemma fold_headers_lookup:
  "map_of (fold (\<lambda>i. copyHeaders norm (headers (resp i))) order h0) k =
     (case lastWriter (\<lambda>i. headerOffer norm (resp i) k) order of Some v \<Rightarrow> Some v | None \<Rightarrow> map_of h0 k)"
  by (induction order arbitrary: h0) (auto simp: copyHeaders_lookup headerOffer_def split: option.splits)

lemma fold_status:
  "fold (\<lambda>i s. if truthyNum (statusCode (resp i)) then statusCode (resp i) else s) order s0 =
     (case lastWriter (\<lambda>i. statusOffer (resp i)) order of Some v \<Rightarrow> Some v | None \<Rightarrow> s0)"
  by (induction order arbitrary: s0) (auto simp: statusOffer_def truthyNum_def split: option.splits)


lemma lastWriter_None: "\<forall>i\<in>set order. offer i = None \<Longrightarrow> lastWriter offer order = None"
  by (induction order) auto

lemma perm_upt_facts:
  assumes "mset order = mset [0..<n]"
  shows "distinct order" and "set order = {0..<n}"
proof -
  show "distinct order"
    using assms by (metis distinct_upt mset_eq_imp_distinct_iff)
  show "set order = {0..<n}"
    using assms by (metis mset_eq_setD set_upt)
qed

lemma runBatchHttpQuery_all_fulfilled:
  assumes perm: "mset order = mset [0..<length (body batchRequest)]"
    and ok: "\<forall>i<length (body batchRequest).
               outcome run batchRequest i = Inr (resp i) \<and> completeBody (resp i) = Some (bodyOf i)"
  shows "runBatchHttpQuery norm run batchRequest order =
     Some (Inr \<lparr> statusCode = lastWriter (\<lambda>i. statusOffer (resp i)) order,
                 headers = fold (\<lambda>i. copyHeaders norm (headers (resp i))) order [],
                 completeBody = Some (''['' @ join '','' (map bodyOf [0..<length (body batchRequest)]) @ '']'') \<rparr>)"
proof -
  let ?n = "length (body batchRequest)"
  let ?st0 = "initialState ?n"
  have d: "distinct order" and s: "set order = {0..<?n}"
    using perm_upt_facts [OF perm] by auto
  have p2: "\<forall>i\<in>set order. i < length (responseBodies ?st0) \<and> i \<notin> set (settled ?st0)"
    using s by (simp add: initialState_def)
  have p3: "\<forall>i\<in>set order. outcome run batchRequest i = Inr (resp i) \<and> completeBody (resp i) = Some (bodyOf i)"
    using s ok by simp
  note st = fold_complete_ok [where f = "outcome run batchRequest" and norm = norm, OF d p2 p3]
  let ?bs = "fold (\<lambda>i bs. bs[i := Some (bodyOf i)]) order (replicate ?n None)"
  have bs: "?bs = map (\<lambda>i. Some (bodyOf i)) [0..<?n]"
  proof (rule nth_equalityI)
    show "length ?bs = length (map (\<lambda>i. Some (bodyOf i)) [0..<?n])"
      by (simp add: fold_update_length)
  next
    fix j assume "j < length ?bs"
    then have j: "j < ?n" by (simp add: fold_update_length)
    then have "?bs ! j = Some (bodyOf j)"
      using fold_update_nth [where g = "\<lambda>i. Some (bodyOf i)" and ?bs0.0 = "replicate ?n None", OF _ d, of j] s
      by simp
    then show "?bs ! j = map (\<lambda>i. Some (bodyOf i)) [0..<?n] ! j"
      using j by simp
  qed
  have all: "list_all (\<lambda>s. s \<noteq> None) (map (\<lambda>i. Some (bodyOf i)) [0..<?n])"
    by (simp add: list_all_iff)
  have the: "map the (map (\<lambda>i. Some (bodyOf i)) [0..<?n]) = map bodyOf [0..<?n]"
    by simp
  have all': "list_all (\<lambda>s. \<exists>y. s = Some y) (map (\<lambda>i. Some (bodyOf i)) [0..<?n])"
    by (simp add: list_all_iff)
  have opt: "(case x of None \<Rightarrow> None | Some v \<Rightarrow> Some v) = x" for x :: "nat option"
    by (cases x) auto
  show ?thesis
    unfolding runBatchHttpQuery_def Let_def st
    by (simp add: initialState_def bs all all' the fold_status opt del: upt.simps map_map list.map_comp)
qed


lemmas batch_eval =
  runBatchHttpQuery_def complete_def outcome_def singleRequest_def twoBodies_def
  loudRun_def loudResponse_def quietRun_def quietResponse_def initialState_def afterAwait_def
  truthyNum_def headerSet_def copyHeaders_def

lemma twoBodies_perm: "mset [1, 0] = mset [0..<length (body twoBodies)]"
proof -
  have "[0..<length (body twoBodies)] = [0, 1]"
    by (simp add: twoBodies_def upt_rec)
  then show ?thesis by simp
qed

lemma twoBodies_loud:
  "\<forall>i<length (body twoBodies).
     outcome loudRun twoBodies i = Inr (loudResponse i) \<and>
     completeBody (loudResponse i) = Some (if i = 0 then ''A'' else ''B'')"
  by (simp add: outcome_def loudRun_def loudResponse_def)

lemma twoBodies_quiet:
  "\<forall>i<length (body twoBodies).
     outcome quietRun twoBodies i = Inr (quietResponse i) \<and>
     completeBody (quietResponse i) = Some (if i = 0 then ''A'' else ''B'')"
  by (simp add: outcome_def quietRun_def quietResponse_def loudResponse_def)



text \<open>
  Claim C2, as stated, fails: the same batch with the same two responses gives status 202
  and header \<open>x: b\<close> when the operations complete in input order, and status 201 and
  header \<open>x: a\<close> when the second operation completes first. The operation later in the
  input array does not win there.
\<close>

theorem runBatchHttpQuery_completion_order_decides:
  "runBatchHttpQuery id loudRun twoBodies [0, 1] =
     Some (Inr \<lparr> statusCode = Some 202, headers = [(''x'', ''b'')], completeBody = Some ''[A,B]'' \<rparr>) \<and>
   runBatchHttpQuery id loudRun twoBodies [1, 0] =
     Some (Inr \<lparr> statusCode = Some 201, headers = [(''x'', ''a'')], completeBody = Some ''[A,B]'' \<rparr>)"
  by (simp add: batch_eval)

text \<open>
  Claim C2, amended. The callbacks write into the shared \<^verbatim>\<open>combinedResponse\<close> as each
  operation completes, so the merged status code and every cell of the merged header
  table hold what the operation that completed last among those writing the cell wrote: a
  truthy status code, or the value of the last header of that response whose key
  normalises to the cell. The operation later in the input array wins when the operations
  complete in input order (\<open>order = [0..<N]\<close>).
\<close>

theorem runBatchHttpQuery_last_completed_wins:
  assumes "mset order = mset [0..<length (body batchRequest)]"
    and "\<forall>i<length (body batchRequest).
           outcome run batchRequest i = Inr (resp i) \<and> completeBody (resp i) = Some (bodyOf i)"
  shows "\<exists>r. runBatchHttpQuery norm run batchRequest order = Some (Inr r) \<and>
           statusCode r = lastWriter (\<lambda>i. statusOffer (resp i)) order \<and>
           (\<forall>k. map_of (headers r) k = lastWriter (\<lambda>i. headerOffer norm (resp i) k) order)"
proof -
  show ?thesis
    using runBatchHttpQuery_all_fulfilled [OF assms, of norm]
    by (auto simp: fold_headers_lookup split: option.splits)
qed

text \<open>The amended C2 where the second operation completes first: the first one's values stay.\<close>

theorem runBatchHttpQuery_last_completed_wins_witness:
  "\<exists>r. runBatchHttpQuery id loudRun twoBodies [1, 0] = Some (Inr r) \<and>
        statusCode r = Some 201 \<and> map_of (headers r) ''x'' = Some ''a''"
proof -
  obtain r where r: "runBatchHttpQuery id loudRun twoBodies [1, 0] = Some (Inr r)"
      "statusCode r = lastWriter (\<lambda>i. statusOffer (loudResponse i)) [1, 0]"
      "\<forall>k. map_of (headers r) k = lastWriter (\<lambda>i. headerOffer id (loudResponse i) k) [1, 0]"
    using runBatchHttpQuery_last_completed_wins [OF twoBodies_perm twoBodies_loud, of id]
    by blast
  have "statusCode r = Some 201"
    using r(2) by (simp add: statusOffer_def loudResponse_def truthyNum_def)
  moreover have "map_of (headers r) ''x'' = Some ''a''"
    using r(3) by (simp add: headerOffer_def loudResponse_def)
  ultimately show ?thesis using r(1) by blast
qed

text \<open>
  Claim C3, as stated, fails: for a batch whose operations set no status code the returned
  response has no status code at all, not 200.
\<close>

theorem runBatchHttpQuery_status_left_unset:
  "runBatchHttpQuery id quietRun twoBodies [0, 1] =
     Some (Inr \<lparr> statusCode = None, headers = [(''x'', ''b'')], completeBody = Some ''[A,B]'' \<rparr>)"
  by (simp add: batch_eval)

text \<open>
  Claim C3, amended. When every operation completes with a body and none of them sets a
  truthy status code, \<^verbatim>\<open>runBatchHttpQuery\<close> returns a response whose \<^verbatim>\<open>statusCode\<close> is
  left undefined: the coordinator assigns no default, and 200 is for whoever sends the
  response.
\<close>

theorem runBatchHttpQuery_no_default_status:
  assumes "mset order = mset [0..<length (body batchRequest)]"
    and "\<forall>i<length (body batchRequest).
           outcome run batchRequest i = Inr (resp i) \<and> completeBody (resp i) = Some (bodyOf i)"
    and "\<forall>i<length (body batchRequest). \<not> truthyNum (statusCode (resp i))"
  shows "\<exists>r. runBatchHttpQuery norm run batchRequest order = Some (Inr r) \<and> statusCode r = None"
proof -
  have "set order = {0..<length (body batchRequest)}"
    using perm_upt_facts(2) [OF assms(1)] .
  then have "\<forall>i\<in>set order. statusOffer (resp i) = None"
    using assms(3) by (simp add: statusOffer_def)
  then have "lastWriter (\<lambda>i. statusOffer (resp i)) order = None"
    by (rule lastWriter_None)
  then show ?thesis
    using runBatchHttpQuery_all_fulfilled [OF assms(1,2), of norm] by simp
qed

text \<open>The amended C3 at the two-element batch with no status code set.\<close>

theorem runBatchHttpQuery_no_default_status_witness:
  "\<exists>r. runBatchHttpQuery id quietRun twoBodies [1, 0] = Some (Inr r) \<and> statusCode r = None"
proof -
  have "\<forall>i<length (body twoBodies). \<not> truthyNum (statusCode (quietResponse i))"
    by (simp add: quietResponse_def truthyNum_def)
  then show ?thesis
    using runBatchHttpQuery_no_default_status [OF twoBodies_perm twoBodies_quiet, of id]
    by blast
qed

section \<open>Verification: runHttpQuery\<close>

lemma isNonEmptyStringRecord_iff:
  "isNonEmptyStringRecord b \<longleftrightarrow> (\<exists>ps. b = JObj ps \<and> ps \<noteq> [])"
  by (cases b) (auto simp: isNonEmptyStringRecord_def isStringRecord_def)


lemma quote_plain_keys:
  "quoteJSONString ''errors'' = [dquote] @ ''errors'' @ [dquote]"
  "quoteJSONString ''data'' = [dquote] @ ''data'' @ [dquote]"
  "quoteJSONString ''extensions'' = [dquote] @ ''extensions'' @ [dquote]"
  by (simp_all add: quoteJSONString_def escapeChar_def dquote_def backslash_def)

lemma stringify_members:
  "stringify (JObj [(k1, v1), (k2, v2), (k3, v3)]) =
     Some (''{'' @ join '','' (
        (case stringify v1 of None \<Rightarrow> [] | Some s \<Rightarrow> [quoteJSONString k1 @ '':'' @ s]) @
        (case stringify v2 of None \<Rightarrow> [] | Some s \<Rightarrow> [quoteJSONString k2 @ '':'' @ s]) @
        (case stringify v3 of None \<Rightarrow> [] | Some s \<Rightarrow> [quoteJSONString k3 @ '':'' @ s])) @ ''}'')"
  by (simp split: option.splits)

lemma stringify_members2:
  "stringify (JObj [(k1, v1), (k3, v3)]) =
     Some (''{'' @ join '','' (
        (case stringify v1 of None \<Rightarrow> [] | Some s \<Rightarrow> [quoteJSONString k1 @ '':'' @ s]) @
        (case stringify v3 of None \<Rightarrow> [] | Some s \<Rightarrow> [quoteJSONString k3 @ '':'' @ s])) @ ''}'')"
  by (simp split: option.splits)

lemma serialized_body:
  "prettyJSONStringify (serializeGraphQLResponse response) =
     ''{'' @ join '','' (member ''errors'' (errors response) @ member ''data'' (data response) @
                        member ''extensions'' (extensions response)) @ ''}'' @ [newline]"
  unfolding prettyJSONStringify_def serializeGraphQLResponse_def stringify_members member_def
    quote_plain_keys
  by (simp split: option.splits)

lemma errorOnly_body:
  "errorOnlyBody response =
     ''{'' @ join '','' (member ''errors'' (errors response) @
                        member ''extensions'' (extensions response)) @ ''}'' @ [newline]"
  unfolding errorOnlyBody_def prettyJSONStringify_def stringify_members2 member_def quote_plain_keys
  by (simp split: option.splits)

lemma member_empty_iff: "member key v = [] \<longleftrightarrow> v = JUndefined"
  by (cases v) (auto simp: member_def)


lemma runHttpQuery_translate_error:
  "translate (jsonParse env) httpRequest = Inl e \<Longrightarrow>
   runHttpQuery env httpRequest context' options0 h = (Inl (HttpQueryErr e), h)"
  by (simp add: runHttpQuery_def)


lemma runHttpQuery_thrown:
  assumes "translate (jsonParse env) httpRequest = Inr graphqlRequest"
    and "processGraphQLRequest env (localOptions env httpRequest options0)
           (requestContextFor (localOptions env httpRequest options0) graphqlRequest
              (fst (cloneObject h context')))
           (snd (cloneObject h context')) = (Throws error, h2)"
  shows "runHttpQuery env httpRequest context' options0 h =
           (Inl (catchClause env (localOptions env httpRequest options0) error), h2)"
  using assms by (simp add: runHttpQuery_def Let_def split_def)

text \<open>
  Claim C6. The body of a single operation's response, \<^verbatim>\<open>prettyJSONStringify\<close> of what
  \<^verbatim>\<open>serializeGraphQLResponse\<close> builds, is one JSON object with the members \<^verbatim>\<open>errors\<close>,
  \<^verbatim>\<open>data\<close>, \<^verbatim>\<open>extensions\<close> in this order, followed by one line feed; the error-only body has
  \<^verbatim>\<open>errors\<close> and \<^verbatim>\<open>extensions\<close> in the same order; a member is left out exactly when its value
  is \<^verbatim>\<open>undefined\<close>; and a response with data and neither errors nor extensions is
  \<^verbatim>\<open>{"data":...}\<close> and the line feed.
\<close>

theorem serialized_body_field_order:
  "prettyJSONStringify (serializeGraphQLResponse response) =
     ''{'' @ join '','' (member ''errors'' (errors response) @ member ''data'' (data response) @
                        member ''extensions'' (extensions response)) @ ''}'' @ [newline] \<and>
   errorOnlyBody response =
     ''{'' @ join '','' (member ''errors'' (errors response) @
                        member ''extensions'' (extensions response)) @ ''}'' @ [newline] \<and>
   (member key v = [] \<longleftrightarrow> v = JUndefined) \<and>
   (errors response = JUndefined \<and> extensions response = JUndefined \<and>
    stringify (data response) = Some d \<longrightarrow>
      prettyJSONStringify (serializeGraphQLResponse response) =
        ''{'' @ [dquote] @ ''data'' @ [dquote] @ '':'' @ d @ ''}'' @ [newline])"
proof -
  have "prettyJSONStringify (serializeGraphQLResponse response) =
        ''{'' @ [dquote] @ ''data'' @ [dquote] @ '':'' @ d @ ''}'' @ [newline]"
    if "errors response = JUndefined" "extensions response = JUndefined"
       "stringify (data response) = Some d"
    using that by (simp add: serialized_body member_def)
  then show ?thesis
    using serialized_body [of response] errorOnly_body [of response] member_empty_iff [of key v]
    by blast
qed

lemma stringify_hello:
  "stringify (JObj [(''hello'', JStr ''world'')]) =
     Some (''{'' @ [dquote] @ ''hello'' @ [dquote] @ '':'' @ [dquote] @ ''world'' @ [dquote] @ ''}'')"
  by (simp add: quoteJSONString_def escapeChar_def dquote_def backslash_def)

text \<open>C6 at the response \<^verbatim>\<open>{ data: { hello: "world" } }\<close>.\<close>

theorem serialized_body_field_order_witness:
  "prettyJSONStringify (serializeGraphQLResponse helloResponse) =
     ''{'' @ [dquote] @ ''data'' @ [dquote] @ '':'' @
       ''{'' @ [dquote] @ ''hello'' @ [dquote] @ '':'' @ [dquote] @ ''world'' @ [dquote] @ ''}'' @
     ''}'' @ [newline]"
proof -
  have h: "errors helloResponse = JUndefined \<and> extensions helloResponse = JUndefined \<and>
        stringify (data helloResponse) =
          Some (''{'' @ [dquote] @ ''hello'' @ [dquote] @ '':'' @ [dquote] @ ''world'' @ [dquote] @ ''}'')"
    using stringify_hello by (simp add: helloResponse_def)
  show ?thesis
    using serialized_body_field_order [THEN conjunct2, THEN conjunct2, THEN conjunct2, THEN mp, OF h]
    by simp
qed

text \<open>
  Claim C7. A \<^verbatim>\<open>POST\<close> request whose body is anything but an object with at least one key
  (\<^verbatim>\<open>undefined\<close>, \<^verbatim>\<open>null\<close>, a primitive, a \<^verbatim>\<open>Buffer\<close>, an array, the empty object) makes
  \<^verbatim>\<open>runHttpQuery\<close> throw the \<^verbatim>\<open>HttpQueryError\<close> with status 400 and this message, before
  anything else happens: the store is unchanged.
\<close>

theorem runHttpQuery_post_body_must_be_record:
  assumes "reqMethod httpRequest = ''POST''"
    and "\<not> (\<exists>ps. body httpRequest = JObj ps \<and> ps \<noteq> [])"
  shows "runHttpQuery env httpRequest context' options0 h =
     (Inl (HttpQueryErr
        \<lparr> errStatusCode = 400,
          message = ''POST body missing, invalid Content-Type, or JSON object has no keys.'',
          isGraphQLError = False, errHeaders = None \<rparr>), h)"
proof -
  have "\<not> isNonEmptyStringRecord (body httpRequest)"
    using assms(2) by (simp add: isNonEmptyStringRecord_iff)
  then have "translate (jsonParse env) httpRequest =
     Inl \<lparr> errStatusCode = 400,
           message = ''POST body missing, invalid Content-Type, or JSON object has no keys.'',
           isGraphQLError = False, errHeaders = None \<rparr>"
    using assms(1) by (simp add: translate_def)
  then show ?thesis by (rule runHttpQuery_translate_error)
qed

text \<open>C7 at the body \<^verbatim>\<open>{}\<close>.\<close>

theorem runHttpQuery_post_body_must_be_record_witness:
  "runHttpQuery sampleEnv (postRequest (JObj [])) 0 sampleOptions sampleHeap =
     (Inl (HttpQueryErr
        \<lparr> errStatusCode = 400,
          message = ''POST body missing, invalid Content-Type, or JSON object has no keys.'',
          isGraphQLError = False, errHeaders = None \<rparr>), sampleHeap)"
proof -
  have "reqMethod (postRequest (JObj [])) = ''POST''"
    by (simp add: postRequest_def)
  moreover have "\<not> (\<exists>ps. body (postRequest (JObj [])) = JObj ps \<and> ps \<noteq> [])"
    by (simp add: postRequest_def)
  ultimately show ?thesis
    by (rule runHttpQuery_post_body_must_be_record)
qed


lemma guidance_differs: "astGuidance \<noteq> ''GraphQL queries must be strings.''"
  by (simp add: astGuidance_def)

lemma kind_is_Document:
  "getField q ''kind'' = JStr ''Document'' \<longleftrightarrow>
     (\<exists>qs. q = JObj qs \<and> map_of qs ''kind'' = Some (JStr ''Document''))"
  by (cases q) (auto split: option.splits)

lemma ensure_truthy_non_string:
  "truthy q \<Longrightarrow> \<not> typeofString q \<Longrightarrow>
   ensureQueryIsStringOrMissing q =
     Some \<lparr> errStatusCode = 400,
            message = (if (\<exists>qs. q = JObj qs \<and> map_of qs ''kind'' = Some (JStr ''Document''))
                       then astGuidance else ''GraphQL queries must be strings.''),
            isGraphQLError = False, errHeaders = None \<rparr>"
  unfolding kind_is_Document [symmetric] by (simp add: ensureQueryIsStringOrMissing_def)

lemma ensure_falsy: "\<not> truthy q \<Longrightarrow> ensureQueryIsStringOrMissing q = None"
  by (simp add: ensureQueryIsStringOrMissing_def)

lemma jsonParsed_messages:
  "jsonParsedFieldIfNonEmptyString jp o' fieldName = Inl e \<Longrightarrow>
     message e = ''The '' @ fieldName @ '' search parameter contains invalid JSON.'' \<or>
     message e = ''The '' @ fieldName @ '' search parameter should contain a JSON-encoded object.''"
  by (auto simp: jsonParsedFieldIfNonEmptyString_def split: jsval.splits option.splits if_splits)

lemma translate_query_error:
  assumes "reqMethod httpRequest = ''POST'' \<or> reqMethod httpRequest = ''GET''"
    and "requestFields httpRequest = JObj ps" and "map_of ps ''query'' = Some q"
    and "ensureQueryIsStringOrMissing q = Some e"
  shows "translate jp httpRequest = Inl e"
proof -
  have ne: "ps \<noteq> []" using assms(3) by auto
  have rec: "isNonEmptyStringRecord (JObj ps)"
    using ne by (simp add: isNonEmptyStringRecord_iff)
  have q: "getField (JObj ps) ''query'' = q" using assms(3) by simp
  show ?thesis
  proof (cases "reqMethod httpRequest = ''POST''")
    case True
    then have "body httpRequest = JObj ps"
      using assms(2) by (simp add: requestFields_def)
    then show ?thesis
      using True rec q assms(4) by (simp add: translate_def)
  next
    case False
    then have g: "reqMethod httpRequest = ''GET''" using assms(1) by simp
    then have "searchParams httpRequest = JObj ps"
      using assms(2) False by (simp add: requestFields_def)
    then show ?thesis
      using g rec q assms(4) by (simp add: translate_def)
  qed
qed

lemma translate_no_query_error:
  assumes "requestFields httpRequest = JObj ps" and "map_of ps ''query'' = Some q"
    and "ensureQueryIsStringOrMissing q = None"
    and "translate jp httpRequest = Inl e"
  shows "message e \<noteq> astGuidance \<and> message e \<noteq> ''GraphQL queries must be strings.''"
proof -
  have q: "getField (JObj ps) ''query'' = q" using assms(2) by simp
  have rec: "isNonEmptyStringRecord (JObj ps)"
    using assms(2) by (auto simp: isNonEmptyStringRecord_iff)
  consider (post) "reqMethod httpRequest = ''POST''"
    | (get) "reqMethod httpRequest = ''GET''"
    | (other) "reqMethod httpRequest \<noteq> ''POST''" "reqMethod httpRequest \<noteq> ''GET''"
    by blast
  then show ?thesis
  proof cases
    case post
    then have "body httpRequest = JObj ps"
      using assms(1) by (simp add: requestFields_def)
    then show ?thesis
      using post rec q assms(3,4) by (simp add: translate_def)
  next
    case get
    then have sp: "searchParams httpRequest = JObj ps"
      using assms(1) by (simp add: requestFields_def)
    have "(\<exists>e'. jsonParsedFieldIfNonEmptyString jp (JObj ps) ''variables'' = Inl e' \<and> e = e') \<or>
          (\<exists>e'. jsonParsedFieldIfNonEmptyString jp (JObj ps) ''extensions'' = Inl e' \<and> e = e')"
      using get sp rec q assms(3,4)
      by (auto simp: translate_def split: sum.splits)
    then have "message e = ''The variables search parameter contains invalid JSON.'' \<or>
      message e = ''The variables search parameter should contain a JSON-encoded object.'' \<or>
      message e = ''The extensions search parameter contains invalid JSON.'' \<or>
      message e = ''The extensions search parameter should contain a JSON-encoded object.''"
      using jsonParsed_messages [of jp "JObj ps" "''variables''" e]
        jsonParsed_messages [of jp "JObj ps" "''extensions''" e]
      by auto
    then show ?thesis
      by (auto simp: astGuidance_def)
  next
    case other
    then have "e = \<lparr> errStatusCode = 405, message = ''Apollo Server supports only GET/POST requests.'',
              isGraphQLError = False, errHeaders = Some [(''Allow'', ''GET, POST'')] \<rparr>"
      using assms(4) by (simp add: translate_def)
    then show ?thesis by (simp add: astGuidance_def)
  qed
qed

lemma fieldIfString_non_string:
  "map_of ps ''query'' = Some q \<Longrightarrow> \<not> typeofString q \<Longrightarrow> fieldIfString (JObj ps) ''query'' = None"
  by (cases q) (simp_all add: fieldIfString_def)

lemma translate_query_field:
  assumes "reqMethod httpRequest = ''POST'' \<or> reqMethod httpRequest = ''GET''"
    and "requestFields httpRequest = JObj ps"
    and "translate jp httpRequest = Inr graphqlRequest"
  shows "query graphqlRequest = fieldIfString (JObj ps) ''query''"
proof (cases "reqMethod httpRequest = ''POST''")
  case True
  then have "body httpRequest = JObj ps"
    using assms(2) by (simp add: requestFields_def)
  then show ?thesis
    using True assms(3)
    by (auto simp: translate_def split: if_splits option.splits)
next
  case False
  then have g: "reqMethod httpRequest = ''GET''" using assms(1) by simp
  then have "searchParams httpRequest = JObj ps"
    using assms(2) False by (simp add: requestFields_def)
  then show ?thesis
    using g assms(3)
    by (auto simp: translate_def split: if_splits option.splits sum.splits)
qed

lemma translate_post_succeeds:
  assumes "reqMethod httpRequest = ''POST''"
    and "body httpRequest = JObj ps" and "map_of ps ''query'' = Some q"
    and "ensureQueryIsStringOrMissing q = None"
  shows "\<exists>graphqlRequest. translate jp httpRequest = Inr graphqlRequest"
proof -
  have "isNonEmptyStringRecord (JObj ps)"
    using assms(3) by (auto simp: isNonEmptyStringRecord_iff)
  moreover have "getField (JObj ps) ''query'' = q" using assms(3) by simp
  ultimately show ?thesis
    using assms(1,2,4) by (simp add: translate_def)
qed

text \<open>
  Claim C8, amended. For a \<^verbatim>\<open>GET\<close> or \<^verbatim>\<open>POST\<close> request whose \<^verbatim>\<open>query\<close> field is truthy and
  not a string, \<^verbatim>\<open>runHttpQuery\<close> throws a 400 error: with the guidance about parsed
  documents when the value is an object whose \<^verbatim>\<open>kind\<close> is the string \<^verbatim>\<open>Document\<close>, with the
  generic message otherwise, and the two messages differ. A falsy \<^verbatim>\<open>query\<close> that is not a
  string (\<^verbatim>\<open>null\<close>, \<^verbatim>\<open>false\<close>, \<^verbatim>\<open>0\<close>) counts as missing: whatever the translation of such
  a request throws, it is neither of these two errors; the translation of a \<^verbatim>\<open>POST\<close>
  request throws nothing; and when the translation succeeds, the GraphQL request has no
  query and \<^verbatim>\<open>runHttpQuery\<close> hands it to the pipeline.
\<close>

theorem runHttpQuery_truthy_query_must_be_string:
  assumes "reqMethod httpRequest = ''POST'' \<or> reqMethod httpRequest = ''GET''"
    and "requestFields httpRequest = JObj ps" and "map_of ps ''query'' = Some q"
  shows "(truthy q \<and> \<not> typeofString q \<longrightarrow>
            runHttpQuery env httpRequest context' options0 h =
              (Inl (HttpQueryErr
                 \<lparr> errStatusCode = 400,
                   message = (if (\<exists>qs. q = JObj qs \<and> map_of qs ''kind'' = Some (JStr ''Document''))
                              then astGuidance else ''GraphQL queries must be strings.''),
                   isGraphQLError = False, errHeaders = None \<rparr>), h)) \<and>
         (\<not> truthy q \<longrightarrow>
            (\<forall>e. translate (jsonParse env) httpRequest = Inl e \<longrightarrow>
                 message e \<noteq> astGuidance \<and> message e \<noteq> ''GraphQL queries must be strings.'')) \<and>
         (\<not> truthy q \<and> \<not> typeofString q \<longrightarrow>
            (reqMethod httpRequest = ''POST'' \<longrightarrow>
               (\<exists>graphqlRequest. translate (jsonParse env) httpRequest = Inr graphqlRequest)) \<and>
            (\<forall>graphqlRequest. translate (jsonParse env) httpRequest = Inr graphqlRequest \<longrightarrow>
               query graphqlRequest = None \<and>
               runHttpQuery env httpRequest context' options0 h =
                 (case processGraphQLRequest env (localOptions env httpRequest options0)
                         (requestContextFor (localOptions env httpRequest options0) graphqlRequest
                            (fst (cloneObject h context')))
                         (snd (cloneObject h context')) of
                    (Throws error, h2) \<Rightarrow>
                      (Inl (catchClause env (localOptions env httpRequest options0) error), h2)
                  | (Resolves response, h2) \<Rightarrow>
                      (afterPipeline env (localOptions env httpRequest options0) response, h2)))) \<and>
         astGuidance \<noteq> ''GraphQL queries must be strings.''"
proof (intro conjI impI allI)
  assume "truthy q \<and> \<not> typeofString q"
  then have "ensureQueryIsStringOrMissing q =
     Some \<lparr> errStatusCode = 400,
            message = (if (\<exists>qs. q = JObj qs \<and> map_of qs ''kind'' = Some (JStr ''Document''))
                       then astGuidance else ''GraphQL queries must be strings.''),
            isGraphQLError = False, errHeaders = None \<rparr>"
    by (simp add: ensure_truthy_non_string)
  then show "runHttpQuery env httpRequest context' options0 h =
              (Inl (HttpQueryErr
                 \<lparr> errStatusCode = 400,
                   message = (if (\<exists>qs. q = JObj qs \<and> map_of qs ''kind'' = Some (JStr ''Document''))
                              then astGuidance else ''GraphQL queries must be strings.''),
                   isGraphQLError = False, errHeaders = None \<rparr>), h)"
    using translate_query_error [OF assms] runHttpQuery_translate_error by blast
next
  fix e
  assume "\<not> truthy q" and "translate (jsonParse env) httpRequest = Inl e"
  then show "message e \<noteq> astGuidance" and "message e \<noteq> ''GraphQL queries must be strings.''"
    using translate_no_query_error [OF assms(2,3) ensure_falsy] by blast+
next
  assume f: "\<not> truthy q \<and> \<not> typeofString q" and p: "reqMethod httpRequest = ''POST''"
  have "body httpRequest = JObj ps"
    using assms(2) p by (simp add: requestFields_def)
  then show "\<exists>graphqlRequest. translate (jsonParse env) httpRequest = Inr graphqlRequest"
    using translate_post_succeeds [OF p _ assms(3)] ensure_falsy f by blast
next
  fix graphqlRequest
  assume f: "\<not> truthy q \<and> \<not> typeofString q"
    and t: "translate (jsonParse env) httpRequest = Inr graphqlRequest"
  show "query graphqlRequest = None"
    using translate_query_field [OF assms(1,2) t] fieldIfString_non_string [OF assms(3)] f
    by simp
  show "runHttpQuery env httpRequest context' options0 h =
                 (case processGraphQLRequest env (localOptions env httpRequest options0)
                         (requestContextFor (localOptions env httpRequest options0) graphqlRequest
                            (fst (cloneObject h context')))
                         (snd (cloneObject h context')) of
                    (Throws error, h2) \<Rightarrow>
                      (Inl (catchClause env (localOptions env httpRequest options0) error), h2)
                  | (Resolves response, h2) \<Rightarrow>
                      (afterPipeline env (localOptions env httpRequest options0) response, h2))"
    using t by (simp add: runHttpQuery_def Let_def split_def)
next
  show "astGuidance \<noteq> ''GraphQL queries must be strings.''"
    by (rule guidance_differs)
qed

text \<open>The amended C8 at a parsed document sent by \<^verbatim>\<open>POST\<close> and at the number 5 sent by \<^verbatim>\<open>GET\<close>.\<close>

theorem runHttpQuery_truthy_query_must_be_string_witness:
  "runHttpQuery sampleEnv (postRequest (JObj [(''query'', JObj [(''kind'', JStr ''Document'')])])) 0
     sampleOptions sampleHeap =
     (Inl (HttpQueryErr \<lparr> errStatusCode = 400, message = astGuidance,
                           isGraphQLError = False, errHeaders = None \<rparr>), sampleHeap) \<and>
   runHttpQuery sampleEnv (getRequest (JObj [(''query'', JNum 5)])) 0 sampleOptions sampleHeap =
     (Inl (HttpQueryErr \<lparr> errStatusCode = 400, message = ''GraphQL queries must be strings.'',
                           isGraphQLError = False, errHeaders = None \<rparr>), sampleHeap)"
proof -
  let ?ast = "JObj [(''kind'', JStr ''Document'')]"
  have 1: "reqMethod (postRequest (JObj [(''query'', ?ast)])) = ''POST'' \<or>
           reqMethod (postRequest (JObj [(''query'', ?ast)])) = ''GET''"
    by (simp add: postRequest_def)
  have 2: "requestFields (postRequest (JObj [(''query'', ?ast)])) = JObj [(''query'', ?ast)]"
    by (simp add: postRequest_def requestFields_def)
  have 3: "map_of [(''query'', ?ast)] ''query'' = Some ?ast" by simp
  have 4: "reqMethod (getRequest (JObj [(''query'', JNum 5)])) = ''POST'' \<or>
           reqMethod (getRequest (JObj [(''query'', JNum 5)])) = ''GET''"
    by (simp add: getRequest_def)
  have 5: "requestFields (getRequest (JObj [(''query'', JNum 5)])) = JObj [(''query'', JNum 5)]"
    by (simp add: getRequest_def requestFields_def)
  have 6: "map_of [(''query'', JNum 5)] ''query'' = Some (JNum 5)" by simp
  show ?thesis
    using runHttpQuery_truthy_query_must_be_string [OF 1 2 3, of sampleEnv 0 sampleOptions sampleHeap]
      runHttpQuery_truthy_query_must_be_string [OF 4 5 6, of sampleEnv 0 sampleOptions sampleHeap]
    by simp
qed


text \<open>
  Claim C8, as stated, fails: \<^verbatim>\<open>query: false\<close> is present and not a string, yet
  \<^verbatim>\<open>ensureQueryIsStringOrMissing\<close> returns for it, and the \<^verbatim>\<open>POST\<close> request that carries it
  passes the translation, which throws no 400 error and builds a GraphQL request without
  a query.
\<close>

theorem falsy_query_passes_translation:
  "ensureQueryIsStringOrMissing (JBool False) = None \<and>
   translate (jsonParse sampleEnv) (postRequest (JObj [(''query'', JBool False)])) =
     Inr \<lparr> query = None, operationName = None, variables = None, extensionsField = None,
           http = postRequest (JObj [(''query'', JBool False)]) \<rparr>"
  by (simp add: translate_def isNonEmptyStringRecord_def isStringRecord_def
      ensureQueryIsStringOrMissing_def fieldIfString_def fieldIfRecord_def postRequest_def)

lemma plugins_localOptions:
  "plugins (localOptions env httpRequest options0) =
     Some (installedPlugins httpRequest options0)"
  by (simp add: localOptions_def optionsWithDebug_def installedPlugins_def split: option.splits)

lemma startPlugins_guard:
  "startPlugins ps = Inr listeners \<Longrightarrow>
   startPlugins (getGuard # ps) = Inr (guardListener # listeners)"
  by (simp add: getGuard_def)

lemma guard_throws:
  "operation \<noteq> Query \<Longrightarrow>
   invokeDidResolveOperation (guardListener # listeners) operation =
     Some (HttpQueryErr
       \<lparr> errStatusCode = 405, message = ''GET supports only query operation'',
         isGraphQLError = False, errHeaders = Some [(''Allow'', ''POST'')] \<rparr>)"
  by (simp add: guardListener_def)

lemma pipelineStages_guard:
  assumes "reqMethod httpRequest = ''GET''"
    and "startPlugins (case plugins options0 of None \<Rightarrow> [] | Some ps \<Rightarrow> ps) = Inr listeners"
    and "parseQuery caps (query graphqlRequest) = Inr document"
    and "validateDocument caps document = []"
    and "resolveOperation caps document (operationName graphqlRequest) = Inr operation"
    and "operation \<noteq> Query"
  shows "pipelineStages caps (localOptions env httpRequest options0)
           (requestContextFor (localOptions env httpRequest options0) graphqlRequest clone) =
         (Throws (HttpQueryErr
            \<lparr> errStatusCode = 405, message = ''GET supports only query operation'',
              isGraphQLError = False, errHeaders = Some [(''Allow'', ''POST'')] \<rparr>),
          [RequestStart, Parsing, Validation, OperationResolution])"
proof -
  have "installedPlugins httpRequest options0 =
          getGuard # (case plugins options0 of None \<Rightarrow> [] | Some ps \<Rightarrow> ps)"
    using assms(1) by (simp add: installedPlugins_def)
  then have start: "startPlugins (installedPlugins httpRequest options0) =
          Inr (guardListener # listeners)"
    using startPlugins_guard [OF assms(2)] by simp
  show ?thesis
    unfolding pipelineStages_def plugins_localOptions
    using start assms(3,4,5) guard_throws [OF assms(6), of listeners]
    by (simp add: requestContextFor_def)
qed

text \<open>
  Claim C9. For a \<^verbatim>\<open>GET\<close> request that passes the translation, whose plugins start, whose
  query parses and validates and whose operation resolves to a mutation or a
  subscription, \<^verbatim>\<open>runHttpQuery\<close> throws the 405 error with the header \<^verbatim>\<open>Allow: POST\<close>; the
  pipeline has then gone through parsing, validation and operation resolution and has not
  entered execution; and for any other method \<^verbatim>\<open>runHttpQuery\<close> adds no plugin to the
  caller's.
\<close>

theorem get_guard_rejects_non_query:
  assumes "reqMethod httpRequest = ''GET''"
    and "translate (jsonParse env) httpRequest = Inr graphqlRequest"
    and "processGraphQLRequest env = stagedPipeline caps"
    and "startPlugins (case plugins options0 of None \<Rightarrow> [] | Some ps \<Rightarrow> ps) = Inr listeners"
    and "parseQuery caps (query graphqlRequest) = Inr document"
    and "validateDocument caps document = []"
    and "resolveOperation caps document (operationName graphqlRequest) = Inr operation"
    and "operation \<noteq> Query"
  shows "fst (runHttpQuery env httpRequest context' options0 h) =
           Inl (HttpQueryErr
             \<lparr> errStatusCode = 405, message = ''GET supports only query operation'',
               isGraphQLError = False, errHeaders = Some [(''Allow'', ''POST'')] \<rparr>) \<and>
         snd (pipelineStages caps (localOptions env httpRequest options0)
                (requestContextFor (localOptions env httpRequest options0) graphqlRequest
                   (fst (cloneObject h context')))) =
           [RequestStart, Parsing, Validation, OperationResolution] \<and>
         (\<forall>r. reqMethod r \<noteq> ''GET'' \<longrightarrow>
              installedPlugins r options0 = (case plugins options0 of None \<Rightarrow> [] | Some ps \<Rightarrow> ps))"
proof -
  let ?options = "localOptions env httpRequest options0"
  let ?rc = "requestContextFor ?options graphqlRequest (fst (cloneObject h context'))"
  let ?e = "HttpQueryErr
             \<lparr> errStatusCode = 405, message = ''GET supports only query operation'',
               isGraphQLError = False, errHeaders = Some [(''Allow'', ''POST'')] \<rparr>"
  have stages: "pipelineStages caps ?options ?rc =
      (Throws ?e, [RequestStart, Parsing, Validation, OperationResolution])"
    by (rule pipelineStages_guard [OF assms(1) assms(4-8)])
  then have "processGraphQLRequest env ?options ?rc (snd (cloneObject h context')) =
      (Throws ?e, snd (cloneObject h context'))"
    by (simp add: assms(3) stagedPipeline_def)
  then have "runHttpQuery env httpRequest context' options0 h =
      (Inl (catchClause env ?options ?e), snd (cloneObject h context'))"
    by (rule runHttpQuery_thrown [OF assms(2)])
  then have "fst (runHttpQuery env httpRequest context' options0 h) = Inl ?e"
    by (simp add: catchClause_def)
  moreover have "\<forall>r. reqMethod r \<noteq> ''GET'' \<longrightarrow>
      installedPlugins r options0 = (case plugins options0 of None \<Rightarrow> [] | Some ps \<Rightarrow> ps)"
    by (simp add: installedPlugins_def)
  ultimately show ?thesis using stages by simp
qed

text \<open>C9 at the request \<^verbatim>\<open>GET ?query=mutation { bump }\<close>.\<close>

theorem get_guard_rejects_non_query_witness:
  "fst (runHttpQuery sampleEnv mutationOverGet 0 sampleOptions sampleHeap) =
     Inl (HttpQueryErr
       \<lparr> errStatusCode = 405, message = ''GET supports only query operation'',
         isGraphQLError = False, errHeaders = Some [(''Allow'', ''POST'')] \<rparr>) \<and>
   snd (pipelineStages sampleCaps (localOptions sampleEnv mutationOverGet sampleOptions)
          (requestContextFor (localOptions sampleEnv mutationOverGet sampleOptions)
             \<lparr> query = Some ''mutation { bump }'', operationName = None, variables = None,
               extensionsField = None, http = mutationOverGet \<rparr>
             (fst (cloneObject sampleHeap 0)))) =
     [RequestStart, Parsing, Validation, OperationResolution]"
proof -
  let ?gr = "\<lparr> query = Some ''mutation { bump }'', operationName = None, variables = None,
               extensionsField = None, http = mutationOverGet \<rparr>"
  let ?doc = "JObj [(''kind'', JStr ''Document''), (''operation'', JStr ''mutation'')]"
  have 1: "reqMethod mutationOverGet = ''GET''"
    by (simp add: mutationOverGet_def)
  have 2: "translate (jsonParse sampleEnv) mutationOverGet = Inr ?gr"
    by (simp add: mutationOverGet_def translate_def isNonEmptyStringRecord_def
        isStringRecord_def ensureQueryIsStringOrMissing_def fieldIfString_def
        jsonParsedFieldIfNonEmptyString_def)
  have 3: "processGraphQLRequest sampleEnv = stagedPipeline sampleCaps"
    by (simp add: sampleEnv_def)
  have 4: "startPlugins (case plugins sampleOptions of None \<Rightarrow> [] | Some ps \<Rightarrow> ps) = Inr []"
    by (simp add: sampleOptions_def)
  have 5: "parseQuery sampleCaps (query ?gr) = Inr ?doc"
    by (simp add: sampleCaps_def)
  have 6: "validateDocument sampleCaps ?doc = []"
    by (simp add: sampleCaps_def)
  have 7: "resolveOperation sampleCaps ?doc (operationName ?gr) = Inr Mutation"
    by (simp add: sampleCaps_def)
  have 8: "Mutation \<noteq> Query" by simp
  show ?thesis
    using get_guard_rejects_non_query [OF 1 2 3 4 5 6 7 8, of 0 sampleHeap] by blast
qed






lemma enumerableProps_assigned:
  "enumerableProps \<lparr> prototype = pr, ownProps = assignedProps obj \<rparr> = enumerableProps obj"
proof -
  have "map (\<lambda>(k, p). (k, propValue p))
          (filter (\<lambda>(k, p). enumerable p)
             (map (\<lambda>(k, p). (k, \<lparr> propValue = propValue p, enumerable = True \<rparr>))
                (filter (\<lambda>(k, p). enumerable p) ps))) =
        map (\<lambda>(k, p). (k, propValue p)) (filter (\<lambda>(k, p). enumerable p) ps)" for ps :: "(string \<times> property) list"
    by (induction ps) auto
  then show ?thesis
    by (simp add: enumerableProps_def assignedProps_def)
qed

lemma assignProp_elsewhere:
  "a \<noteq> c \<Longrightarrow> assignProp h c k v ! a = h ! a"
  by (simp add: assignProp_def)

lemma assignProp_here:
  "c < length h \<Longrightarrow> ownProp (assignProp h c k v) c k = Some v"
  by (simp add: assignProp_def ownProp_def update_conv')

lemma runHttpQuery_passes_clone:
  "translate (jsonParse env) httpRequest = Inr graphqlRequest \<Longrightarrow>
   runHttpQuery env httpRequest context' options0 h =
     (case processGraphQLRequest env (localOptions env httpRequest options0)
             (requestContextFor (localOptions env httpRequest options0) graphqlRequest
                (fst (cloneObject h context')))
             (snd (cloneObject h context')) of
        (Throws error, h2) \<Rightarrow> (Inl (catchClause env (localOptions env httpRequest options0) error), h2)
      | (Resolves response, h2) \<Rightarrow> (afterPipeline env (localOptions env httpRequest options0) response, h2))"
  by (simp add: runHttpQuery_def Let_def split_def)

text \<open>
  Claim C10. For a live object, \<^verbatim>\<open>cloneObject\<close> returns a new address, not the object's
  own; the new object has the same prototype and the same enumerable own properties with
  the same values (a reference stays the same address, so nested objects are shared), and
  no existing object changes. \<^verbatim>\<open>runHttpQuery\<close> hands the pipeline this copy. A later copy
  of the same object, made for a sibling operation in any store that still holds the
  first copy, is at another address, and an assignment to a property of the first copy
  shows on the first copy and changes no other object; a copy made for a sibling after
  such an assignment still has the properties of the caller's object.
\<close>

theorem cloneObject_shallow_copy:
  assumes "context' < length h"
  shows "fst (cloneObject h context') \<noteq> context' \<and>
         fst (cloneObject h context') \<notin> {..<length h} \<and>
         prototype (snd (cloneObject h context') ! fst (cloneObject h context')) = prototype (h ! context') \<and>
         enumerableProps (snd (cloneObject h context') ! fst (cloneObject h context')) =
           enumerableProps (h ! context') \<and>
         (\<forall>a<length h. snd (cloneObject h context') ! a = h ! a) \<and>
         (\<forall>graphqlRequest. translate (jsonParse env) httpRequest = Inr graphqlRequest \<longrightarrow>
            contextObject (requestContextFor (localOptions env httpRequest options0) graphqlRequest
              (fst (cloneObject h context'))) = fst (cloneObject h context') \<and>
            runHttpQuery env httpRequest context' options0 h =
              (case processGraphQLRequest env (localOptions env httpRequest options0)
                      (requestContextFor (localOptions env httpRequest options0) graphqlRequest
                         (fst (cloneObject h context')))
                      (snd (cloneObject h context')) of
                 (Throws error, h2) \<Rightarrow>
                   (Inl (catchClause env (localOptions env httpRequest options0) error), h2)
               | (Resolves response, h2) \<Rightarrow>
                   (afterPipeline env (localOptions env httpRequest options0) response, h2))) \<and>
         (\<forall>h'. length h < length h' \<longrightarrow>
            fst (cloneObject h' context') \<noteq> fst (cloneObject h context') \<and>
            (\<forall>k v a. a \<noteq> fst (cloneObject h context') \<longrightarrow>
               assignProp (snd (cloneObject h' context')) (fst (cloneObject h context')) k v ! a =
                 snd (cloneObject h' context') ! a) \<and>
            (\<forall>k v. ownProp (assignProp (snd (cloneObject h' context')) (fst (cloneObject h context')) k v)
                      (fst (cloneObject h context')) k = Some v)) \<and>
         (\<forall>k v. enumerableProps
                  (snd (cloneObject
                          (assignProp (snd (cloneObject h context')) (fst (cloneObject h context')) k v)
                          context') !
                   fst (cloneObject
                          (assignProp (snd (cloneObject h context')) (fst (cloneObject h context')) k v)
                          context')) =
                enumerableProps (h ! context'))"
proof (intro conjI allI impI)
  show "fst (cloneObject h context') \<noteq> context'"
    using assms by (simp add: cloneObject_def)
  show "fst (cloneObject h context') \<notin> {..<length h}"
    by (simp add: cloneObject_def)
  show "prototype (snd (cloneObject h context') ! fst (cloneObject h context')) = prototype (h ! context')"
    by (simp add: cloneObject_def)
  show "enumerableProps (snd (cloneObject h context') ! fst (cloneObject h context')) =
           enumerableProps (h ! context')"
    by (simp add: cloneObject_def enumerableProps_assigned)
next
  fix a assume "a < length h"
  then show "snd (cloneObject h context') ! a = h ! a"
    by (simp add: cloneObject_def nth_append)
next
  fix graphqlRequest
  assume t: "translate (jsonParse env) httpRequest = Inr graphqlRequest"
  show "contextObject (requestContextFor (localOptions env httpRequest options0) graphqlRequest
              (fst (cloneObject h context'))) = fst (cloneObject h context')"
    by (simp add: requestContextFor_def)
  show "runHttpQuery env httpRequest context' options0 h =
              (case processGraphQLRequest env (localOptions env httpRequest options0)
                      (requestContextFor (localOptions env httpRequest options0) graphqlRequest
                         (fst (cloneObject h context')))
                      (snd (cloneObject h context')) of
                 (Throws error, h2) \<Rightarrow>
                   (Inl (catchClause env (localOptions env httpRequest options0) error), h2)
               | (Resolves response, h2) \<Rightarrow>
                   (afterPipeline env (localOptions env httpRequest options0) response, h2))"
    by (rule runHttpQuery_passes_clone [OF t])
next
  fix h' :: heap assume l: "length h < length h'"
  show "fst (cloneObject h' context') \<noteq> fst (cloneObject h context')"
    using l by (simp add: cloneObject_def)
  show "assignProp (snd (cloneObject h' context')) (fst (cloneObject h context')) k v ! a =
          snd (cloneObject h' context') ! a" if "a \<noteq> fst (cloneObject h context')" for k v a
    using that by (simp add: assignProp_elsewhere)
  show "ownProp (assignProp (snd (cloneObject h' context')) (fst (cloneObject h context')) k v)
          (fst (cloneObject h context')) k = Some v" for k v
    using l by (simp add: assignProp_here cloneObject_def)
next
  fix k v
  let ?h1 = "assignProp (snd (cloneObject h context')) (fst (cloneObject h context')) k v"
  have "?h1 ! context' = h ! context'"
    using assms by (simp add: assignProp_def cloneObject_def nth_append)
  then show "enumerableProps (snd (cloneObject ?h1 context') ! fst (cloneObject ?h1 context')) =
               enumerableProps (h ! context')"
    by (simp add: cloneObject_def [of ?h1] enumerableProps_assigned)
qed

text \<open>C10 at the sample store: the copy of the object at address 0.\<close>

theorem cloneObject_shallow_copy_witness:
  "fst (cloneObject sampleHeap 0) \<noteq> 0 \<and>
   prototype (snd (cloneObject sampleHeap 0) ! fst (cloneObject sampleHeap 0)) = Some 2 \<and>
   enumerableProps (snd (cloneObject sampleHeap 0) ! fst (cloneObject sampleHeap 0)) =
     [(''user'', Prim (JStr ''ann'')), (''db'', Ref 1)]"
proof -
  have "(0::nat) < length sampleHeap" by (simp add: sampleHeap_def)
  from cloneObject_shallow_copy [OF this, of sampleEnv mutationOverGet sampleOptions]
  have "fst (cloneObject sampleHeap 0) \<noteq> 0"
    and "prototype (snd (cloneObject sampleHeap 0) ! fst (cloneObject sampleHeap 0)) =
           prototype (sampleHeap ! 0)"
    and "enumerableProps (snd (cloneObject sampleHeap 0) ! fst (cloneObject sampleHeap 0)) =
           enumerableProps (sampleHeap ! 0)"
    by blast+
  then show ?thesis
    by (simp add: sampleHeap_def enumerableProps_def)
qed

section \<open>Verification: the document store\<close>

lemma evict_total:
  "tot = sum_list (map entrySize es) \<Longrightarrow>
   fst (evict mx tot es) = sum_list (map entrySize (snd (evict mx tot es)))"
  by (induction es arbitrary: tot) auto

lemma evict_within:
  "tot = sum_list (map entrySize es) \<Longrightarrow> \<not> overCapacity mx (fst (evict mx tot es))"
  by (induction es arbitrary: tot) (auto simp: overCapacity_def split: option.splits)

lemma evict_drop:
  "tot = sum_list (map entrySize es) \<Longrightarrow>
   \<exists>m\<le>length es. snd (evict mx tot es) = drop m es \<and>
      (\<forall>j<m. overCapacity mx (sum_list (map entrySize (drop j es))))"
proof (induction es arbitrary: tot)
  case Nil
  then show ?case by simp
next
  case (Cons e es)
  show ?case
  proof (cases "overCapacity mx tot")
    case False
    then show ?thesis by (intro exI [of _ 0]) simp
  next
    case True
    have "tot - entrySize e = sum_list (map entrySize es)"
      using Cons.prems by simp
    from Cons.IH [OF this] obtain m where m: "m \<le> length es"
      "snd (evict mx (tot - entrySize e) es) = drop m es"
      "\<forall>j<m. overCapacity mx (sum_list (map entrySize (drop j es)))"
      by blast
    have "\<forall>j<Suc m. overCapacity mx (sum_list (map entrySize (drop j (e # es))))"
    proof (intro allI impI)
      fix j assume "j < Suc m"
      then show "overCapacity mx (sum_list (map entrySize (drop j (e # es))))"
        using m(3) True Cons.prems by (cases j) auto
    qed
    then show ?thesis
      using m True by (intro exI [of _ "Suc m"]) simp
  qed
qed

lemma evict_sublist: "set (snd (evict mx tot es)) \<subseteq> set es"
  by (induction es arbitrary: tot) auto

lemma evict_distinct: "distinct (map fst es) \<Longrightarrow> distinct (map fst (snd (evict mx tot es)))"
  by (induction es arbitrary: tot) auto

lemma sum_withoutKey:
  "distinct (map fst es) \<Longrightarrow>
   sum_list (map entrySize es) = sum_list (map entrySize (withoutKey key es)) + sizeUnder key es"
proof (induction es)
  case Nil
  show ?case by (simp add: withoutKey_def sizeUnder_def)
next
  case (Cons e es)
  show ?case
  proof (cases "fst e = key")
    case True
    then have "key \<notin> fst ` set es" using Cons.prems by auto
    then have "withoutKey key es = es"
      by (auto simp: withoutKey_def filter_id_conv)
    then show ?thesis using True by (simp add: withoutKey_def sizeUnder_def)
  next
    case False
    then show ?thesis using Cons by (simp add: withoutKey_def sizeUnder_def)
  qed
qed

lemma find_key_in: "find (\<lambda>e. fst e = key) es = Some e \<Longrightarrow> e \<in> set es \<and> fst e = key"
  by (induction es) (auto split: if_splits)

lemma withoutKey_distinct: "distinct (map fst es) \<Longrightarrow> distinct (map fst (withoutKey key es))"
  by (simp add: withoutKey_def distinct_map_filter)

lemma withoutKey_keys: "key \<notin> fst ` set (withoutKey key es)"
  by (auto simp: withoutKey_def)

lemma withoutKey_subset: "set (withoutKey key es) \<subseteq> set es"
  by (auto simp: withoutKey_def)

lemma list_all_subset: "list_all P es \<Longrightarrow> set xs \<subseteq> set es \<Longrightarrow> list_all P xs"
  by (auto simp: list_all_iff)

lemma overCapacity_mono: "\<not> overCapacity mx n \<Longrightarrow> k \<le> n \<Longrightarrow> \<not> overCapacity mx k"
  by (auto simp: overCapacity_def split: option.splits)

lemma lruGet_invariant:
  assumes "storeInvariant store"
  shows "storeInvariant (snd (lruGet key store))"
proof (cases "find (\<lambda>e. fst e = key) (entries store)")
  case None
  then show ?thesis using assms by (simp add: lruGet_def)
next
  case (Some e)
  have e: "e \<in> set (entries store)" "fst e = key"
    using find_key_in [OF Some] by auto
  have d: "distinct (map fst (entries store))"
    using assms by (simp add: storeInvariant_def)
  have sum: "sum_list (map entrySize (withoutKey key (entries store) @ [e])) =
             sum_list (map entrySize (entries store))"
    using sum_withoutKey [OF d, of key] Some by (simp add: sizeUnder_def)
  have dist: "distinct (map fst (withoutKey key (entries store) @ [e]))"
    using withoutKey_distinct [OF d, of key] withoutKey_keys [of key "entries store"] e(2)
    by auto
  have all: "list_all (\<lambda>e. lengthOf store (fst (snd e)) = Some (entrySize e))
               (withoutKey key (entries store) @ [e])"
    "list_all (\<lambda>e. \<exists>document. fst (snd e) = keyvStored document)
               (withoutKey key (entries store) @ [e])"
    using assms e(1) withoutKey_subset [of key "entries store"]
    by (auto simp: storeInvariant_def list_all_iff)
  have t: "total store = sum_list (map entrySize (entries store))"
    and c: "\<not> overCapacity (maxSize store) (total store)"
    using assms by (auto simp: storeInvariant_def)
  have c': "\<not> overCapacity (maxSize store) (sum_list (map entrySize (entries store)))"
    using c t by simp
  show ?thesis
    using Some sum dist all t c' by (simp add: lruGet_def storeInvariant_def)
qed

lemma lruDel_invariant:
  assumes "storeInvariant store"
  shows "storeInvariant (lruDel key store)"
proof -
  have d: "distinct (map fst (entries store))"
    and t: "total store = sum_list (map entrySize (entries store))"
    and c: "\<not> overCapacity (maxSize store) (total store)"
    using assms by (auto simp: storeInvariant_def)
  have eq: "total store - sizeUnder key (entries store) =
        sum_list (map entrySize (withoutKey key (entries store)))"
    using sum_withoutKey [OF d, of key] t by simp
  have cap: "\<not> overCapacity (maxSize store) (total store - sizeUnder key (entries store))"
    by (rule overCapacity_mono [OF c]) simp
  have all: "list_all (\<lambda>e. lengthOf store (fst (snd e)) = Some (entrySize e))
                   (withoutKey key (entries store))"
    "list_all (\<lambda>e. \<exists>document. fst (snd e) = keyvStored document)
                   (withoutKey key (entries store))"
    using assms withoutKey_subset [of key "entries store"]
    by (auto simp: storeInvariant_def list_all_iff)
  have cap': "\<not> overCapacity (maxSize store)
                 (sum_list (map entrySize (withoutKey key (entries store))))"
    using cap eq by simp
  show ?thesis
    using eq cap' all withoutKey_distinct [OF d, of key]
    by (simp add: lruDel_def storeInvariant_def)
qed

lemma lruSet_entries:
  assumes "storeInvariant store" and "lengthOf store v = Some n"
    and "\<not> overCapacity (maxSize store) n"
  shows "lruSet key v store =
     (Inr True, store \<lparr> entries := snd (evict (maxSize store)
                        (sum_list (map entrySize (withoutKey key (entries store) @ [(key, v, n)])))
                        (withoutKey key (entries store) @ [(key, v, n)])),
                    total := fst (evict (maxSize store)
                        (sum_list (map entrySize (withoutKey key (entries store) @ [(key, v, n)])))
                        (withoutKey key (entries store) @ [(key, v, n)])) \<rparr>)"
proof -
  have d: "distinct (map fst (entries store))"
    and t: "total store = sum_list (map entrySize (entries store))"
    using assms(1) by (simp_all add: storeInvariant_def)
  have "total store - sizeUnder key (entries store) + n =
        sum_list (map entrySize (withoutKey key (entries store) @ [(key, v, n)]))"
    using sum_withoutKey [OF d, of key] t by (simp add: entrySize_def)
  then show ?thesis
    using assms(2,3) by (simp add: lruSet_def Let_def split_def)
qed

lemma keyvSet_invariant:
  assumes "storeInvariant store"
  shows "storeInvariant (snd (keyvSet key document store))"
proof (cases "lengthOf store (keyvStored document)")
  case None
  then show ?thesis using assms by (simp add: keyvSet_def lruSet_def)
next
  case (Some n)
  show ?thesis
  proof (cases "overCapacity (maxSize store) n")
    case True
    then show ?thesis
      using Some lruDel_invariant [OF assms] by (simp add: keyvSet_def lruSet_def)
  next
    case False
    let ?k = "keyPrefix key"
    let ?es = "withoutKey ?k (entries store) @ [(?k, keyvStored document, n)]"
    let ?tot = "sum_list (map entrySize ?es)"
    have d: "distinct (map fst (entries store))"
      using assms by (simp add: storeInvariant_def)
    have dist: "distinct (map fst ?es)"
      using withoutKey_distinct [OF d, of ?k] withoutKey_keys [of ?k "entries store"] by auto
    have all: "list_all (\<lambda>e. lengthOf store (fst (snd e)) = Some (entrySize e)) ?es"
      "list_all (\<lambda>e. \<exists>document. fst (snd e) = keyvStored document) ?es"
      using assms Some withoutKey_subset [of ?k "entries store"]
      by (auto simp: storeInvariant_def list_all_iff entrySize_def)
    have all': "list_all (\<lambda>e. lengthOf store (fst (snd e)) = Some (entrySize e))
                  (snd (evict (maxSize store) ?tot ?es))"
      "list_all (\<lambda>e. \<exists>document. fst (snd e) = keyvStored document)
                  (snd (evict (maxSize store) ?tot ?es))"
      using all list_all_subset [OF _ evict_sublist [of "maxSize store" ?tot ?es]] by blast+
    show ?thesis
      unfolding keyvSet_def lruSet_entries [OF assms Some False]
      using evict_distinct [OF dist, of "maxSize store" ?tot]
        evict_total [of ?tot ?es "maxSize store"] evict_within [of ?tot ?es "maxSize store"] all'
      by (simp add: storeInvariant_def)
  qed
qed

lemma keyvGet_state: "snd (keyvGet jsonbParse key store) = snd (lruGet (keyPrefix key) store)"
  by (simp add: keyvGet_def Let_def split: prod.splits option.splits)

lemma applyOp_invariant: "storeInvariant store \<Longrightarrow> storeInvariant (applyOp jsonbParse op store)"
proof (cases op)
  case (Get key)
  assume "storeInvariant store"
  then show ?thesis using Get by (simp add: keyvGet_state lruGet_invariant)
next
  case (Set key document)
  assume "storeInvariant store"
  then show ?thesis using Set by (simp add: keyvSet_invariant)
next
  case (Delete key)
  assume "storeInvariant store"
  then show ?thesis using Delete by (simp add: keyvDelete_def lruDel_invariant)
next
  case Clear
  assume "storeInvariant store"
  then show ?thesis using Clear
    by (simp add: keyvClear_def lruReset_def storeInvariant_def overCapacity_def split: option.splits)
qed

lemma applyOp_config:
  "maxSize (applyOp jsonbParse op store) = maxSize store \<and>
   lengthOf (applyOp jsonbParse op store) = lengthOf store"
  by (cases op)
    (auto simp: keyvGet_state keyvSet_def keyvDelete_def keyvClear_def lruGet_def lruSet_def lruDel_def
       lruReset_def Let_def split_def split: option.splits)

lemma applyOps_invariant:
  "storeInvariant store \<Longrightarrow> storeInvariant (applyOps jsonbParse ops store)"
  unfolding applyOps_def by (induction ops arbitrary: store) (auto simp: applyOp_invariant)

lemma applyOps_config:
  "maxSize (applyOps jsonbParse ops store) = maxSize store \<and>
   lengthOf (applyOps jsonbParse ops store) = lengthOf store"
  unfolding applyOps_def by (induction ops arbitrary: store) (auto simp: applyOp_config)

lemma newLRU_invariant: "storeInvariant (newLRU capacity len)"
  by (simp add: newLRU_def storeInvariant_def overCapacity_def)

lemma keyvStored_size: "\<exists>n. jsonBytesSizeCalculator (keyvStored document) = Some n"
  by (simp add: jsonBytesSizeCalculator_def keyvStored_def)

lemmas store_eval =
  keyvSet_def lruSet_def lruGet_def lruDel_def newKeyvLRU_def newLRU_def
  overCapacity_def sizeUnder_def withoutKey_def entrySize_def keyPrefix_def keyvStored_def
  jsonbString_def jsonBytesSizeCalculator_def quoteJSONString_def escapeChar_def dquote_def
  backslash_def getTotalSize_def Let_def

text \<open>
  documentStore.test.ts expects \<^verbatim>\<open>getTotalSize()\<close> to be 508 after the document of
  \<^verbatim>\<open>query { hello }\<close> has been set; the JSON text of the document itself has 403 bytes.
\<close>

lemma documentStore_test_total_size:
  "getTotalSize (snd (keyvSet ''ec2e01311ab3b02f3d8c8c712f9e579356d332cd007ac4c1ea5df727f482f05f''
     helloDocument newKeyvLRU)) = 508 \<and>
   jsonBytesSizeCalculator helloDocument = Some 403"
  by (simp add: store_eval helloDocument_def loc_def showInt_def showNat.simps)

text \<open>
  Claim C4, as stated, fails on the size of an entry: after the document \<^verbatim>\<open>"xx"\<close>, whose
  JSON text has 4 bytes, is set in a new store, the total size is 37, the byte length of
  the JSON text of the string that \<^verbatim>\<open>Keyv\<close> stores for it.
\<close>

theorem stored_size_is_not_document_size:
  "entries (snd (keyvSet ''k'' (JStr ''xx'') newKeyvLRU)) =
     [(''apollo:k'',
       JStr (''{'' @ [dquote] @ ''value'' @ [dquote] @ '':'' @ [dquote] @ ''xx'' @ [dquote] @ '','' @
             [dquote] @ ''expires'' @ [dquote] @ '':null}''), 37)] \<and>
   getTotalSize (snd (keyvSet ''k'' (JStr ''xx'') newKeyvLRU)) = 37 \<and>
   jsonBytesSizeCalculator (JStr ''xx'') = Some 4"
  by (simp add: store_eval)

text \<open>
  Claim C4, amended. The store that \<^verbatim>\<open>KeyvLRU\<close> builds has the capacity
  \<open>2^20 * 30 = 31457280\<close> bytes. After any sequence of uses of a store with a capacity
  above 0, the total size is the sum over the live entries of the size computed for each
  when it was set, which is what \<^verbatim>\<open>jsonBytesSizeCalculator\<close> gives for the string \<^verbatim>\<open>Keyv\<close>
  stores for the document, and it does not exceed the capacity. A \<^verbatim>\<open>Set\<close> of a document
  whose stored size is within the capacity puts its entry last in the order of use, keeps
  it, and drops entries from the least recently used end, only as many as needed: had it
  dropped fewer, the total would exceed the capacity. A \<^verbatim>\<open>Set\<close> of a document whose stored
  size exceeds the capacity stores nothing and only removes the entry under its key. A
  \<^verbatim>\<open>Get\<close> that finds its key makes that entry the most recently used.
\<close>

theorem document_store_within_capacity:
  assumes "0 < capacity"
  shows "maxSize newKeyvLRU = Some 31457280 \<and>
   (let store = applyOps jsonbParse ops (newLRU capacity jsonBytesSizeCalculator) in
      getTotalSize store = sum_list (map entrySize (entries store)) \<and>
      getTotalSize store \<le> capacity \<and>
      list_all (\<lambda>e. \<exists>document. fst (snd e) = keyvStored document \<and>
                   jsonBytesSizeCalculator (keyvStored document) = Some (entrySize e)) (entries store) \<and>
      (\<forall>key document. \<exists>n. jsonBytesSizeCalculator (keyvStored document) = Some n \<and>
         (if capacity < n then
            entries (snd (keyvSet key document store)) = withoutKey (keyPrefix key) (entries store)
          else
            (\<exists>m\<le>length (withoutKey (keyPrefix key) (entries store)).
               entries (snd (keyvSet key document store)) =
                 drop m (withoutKey (keyPrefix key) (entries store) @
                         [(keyPrefix key, keyvStored document, n)]) \<and>
               (\<forall>j<m. capacity <
                  sum_list (map entrySize
                    (drop j (withoutKey (keyPrefix key) (entries store) @
                             [(keyPrefix key, keyvStored document, n)]))))))) \<and>
      (\<forall>key e. find (\<lambda>e. fst e = keyPrefix key) (entries store) = Some e \<longrightarrow>
         snd (keyvGet jsonbParse key store) =
           store \<lparr> entries := withoutKey (keyPrefix key) (entries store) @ [e] \<rparr>))"
proof -
  let ?store = "applyOps jsonbParse ops (newLRU capacity jsonBytesSizeCalculator)"
  have inv: "storeInvariant ?store"
    by (rule applyOps_invariant [OF newLRU_invariant])
  have cfg: "maxSize ?store = Some capacity" "lengthOf ?store = jsonBytesSizeCalculator"
    using applyOps_config [of jsonbParse ops "newLRU capacity jsonBytesSizeCalculator"] assms
    by (simp_all add: newLRU_def)
  have 1: "maxSize newKeyvLRU = Some 31457280"
    by (simp add: newKeyvLRU_def newLRU_def)
  have 2: "getTotalSize ?store = sum_list (map entrySize (entries ?store))"
    "getTotalSize ?store \<le> capacity"
    using inv cfg by (auto simp: storeInvariant_def getTotalSize_def overCapacity_def)
  have 3: "list_all (\<lambda>e. \<exists>document. fst (snd e) = keyvStored document \<and>
                   jsonBytesSizeCalculator (keyvStored document) = Some (entrySize e)) (entries ?store)"
    unfolding list_all_iff
  proof
    fix e assume e: "e \<in> set (entries ?store)"
    have "jsonBytesSizeCalculator (fst (snd e)) = Some (entrySize e)"
      using inv cfg e by (auto simp: storeInvariant_def list_all_iff)
    moreover obtain document where "fst (snd e) = keyvStored document"
      using inv e by (auto simp: storeInvariant_def list_all_iff)
    ultimately show "\<exists>document. fst (snd e) = keyvStored document \<and>
                   jsonBytesSizeCalculator (keyvStored document) = Some (entrySize e)"
      by auto
  qed
  have 4: "\<exists>n. jsonBytesSizeCalculator (keyvStored document) = Some n \<and>
         (if capacity < n then
            entries (snd (keyvSet key document ?store)) = withoutKey (keyPrefix key) (entries ?store)
          else
            (\<exists>m\<le>length (withoutKey (keyPrefix key) (entries ?store)).
               entries (snd (keyvSet key document ?store)) =
                 drop m (withoutKey (keyPrefix key) (entries ?store) @
                         [(keyPrefix key, keyvStored document, n)]) \<and>
               (\<forall>j<m. capacity <
                  sum_list (map entrySize
                    (drop j (withoutKey (keyPrefix key) (entries ?store) @
                             [(keyPrefix key, keyvStored document, n)]))))))"
    for key document
  proof -
    obtain n where n: "jsonBytesSizeCalculator (keyvStored document) = Some n"
      using keyvStored_size by blast
    then have l: "lengthOf ?store (keyvStored document) = Some n" using cfg by simp
    let ?es = "withoutKey (keyPrefix key) (entries ?store) @ [(keyPrefix key, keyvStored document, n)]"
    show ?thesis
    proof (cases "capacity < n")
      case True
      then have "entries (snd (keyvSet key document ?store)) =
                   withoutKey (keyPrefix key) (entries ?store)"
        using l cfg by (simp add: keyvSet_def lruSet_def lruDel_def overCapacity_def)
      then show ?thesis using n True by auto
    next
      case False
      then have nc: "\<not> overCapacity (maxSize ?store) n"
        using cfg by (simp add: overCapacity_def)
      obtain m where m: "m \<le> length ?es"
        "snd (evict (Some capacity) (sum_list (map entrySize ?es)) ?es) = drop m ?es"
        "\<forall>j<m. overCapacity (Some capacity) (sum_list (map entrySize (drop j ?es)))"
        using evict_drop [OF refl, where mx = "Some capacity" and es = ?es] by blast
      have "m \<le> length (withoutKey (keyPrefix key) (entries ?store))"
      proof (rule ccontr)
        assume "\<not> m \<le> length (withoutKey (keyPrefix key) (entries ?store))"
        then have "length (withoutKey (keyPrefix key) (entries ?store)) < m" by simp
        then have "overCapacity (Some capacity)
           (sum_list (map entrySize
              (drop (length (withoutKey (keyPrefix key) (entries ?store))) ?es)))"
          using m(3) by blast
        then show False using False by (simp add: overCapacity_def entrySize_def)
      qed
      moreover have "entries (snd (keyvSet key document ?store)) = drop m ?es"
        unfolding keyvSet_def lruSet_entries [OF inv l nc] cfg using m(2) by simp
      moreover have "\<forall>j<m. capacity < sum_list (map entrySize (drop j ?es))"
        using m(3) by (simp add: overCapacity_def)
      ultimately show ?thesis using n False by auto
    qed
  qed
  have 5: "snd (keyvGet jsonbParse key ?store) =
            ?store \<lparr> entries := withoutKey (keyPrefix key) (entries ?store) @ [e] \<rparr>"
    if "find (\<lambda>e. fst e = keyPrefix key) (entries ?store) = Some e" for key e
    using that by (simp add: keyvGet_state lruGet_def)
  show ?thesis
    unfolding Let_def using 1 2 3 4 5 by blast
qed

lemma smallStore_entries:
  "entries (applyOps unparsed smallStoreOps (newLRU 90 jsonBytesSizeCalculator)) =
     [(''apollo:a'', keyvStored (JStr ''xx''), 37), (''apollo:c'', keyvStored (JStr ''z''), 36)]"
  by (simp add: smallStoreOps_def applyOps_def keyvGet_state store_eval)

text \<open>
  The amended C4 at a store of ninety bytes: after \<^verbatim>\<open>a\<close> and \<^verbatim>\<open>b\<close> are set and \<^verbatim>\<open>a\<close> is
  read, setting \<^verbatim>\<open>c\<close> evicts \<^verbatim>\<open>b\<close>.
\<close>

theorem document_store_within_capacity_witness:
  "map (\<lambda>e. (fst e, entrySize e)) (entries (applyOps unparsed smallStoreOps (newLRU 90 jsonBytesSizeCalculator))) =
     [(''apollo:a'', 37), (''apollo:c'', 36)] \<and>
   getTotalSize (applyOps unparsed smallStoreOps (newLRU 90 jsonBytesSizeCalculator)) = 73 \<and>
   getTotalSize (applyOps unparsed smallStoreOps (newLRU 90 jsonBytesSizeCalculator)) \<le> 90"
proof -
  let ?store = "applyOps unparsed smallStoreOps (newLRU 90 jsonBytesSizeCalculator)"
  have "(0::nat) < 90" by simp
  from document_store_within_capacity [OF this, of unparsed smallStoreOps]
  have "getTotalSize ?store = sum_list (map entrySize (entries ?store))"
    and le: "getTotalSize ?store \<le> 90"
    unfolding Let_def by blast+
  then have "getTotalSize ?store = 73"
    unfolding smallStore_entries by (simp add: entrySize_def)
  then show ?thesis using le smallStore_entries by (simp add: entrySize_def)
qed

end
